theory Spec2Isabelle
  imports Main "HOL-Library.Sublist"
begin

section \<open>Strings and Python values\<close>

text \<open>
  A Python \<open>str\<close> is the list of its code points. A JavaScript string is the list of its
  UTF-16 code units; every character of the status table below is in the basic plane, where
  the two agree. String literals of the source that are plain ASCII are written with
  \<open>ascii\<close>.
\<close>

type_synonym ustring = "nat list"

definition ascii :: "string \<Rightarrow> ustring" where
  "ascii s = map of_char s"

text \<open>
  The Python values that reach this module from the persistent store and from a decoded JSON
  body. Floating-point values are left out; a \<open>dict\<close> is the list of its items, with
  distinct keys.
\<close>

datatype pyval =
    PNone
  | PBool bool
  | PInt int
  | PStr ustring
  | PList "pyval list"
  | PDict "(ustring \<times> pyval) list"

text \<open>The truth value Python gives a value in \<open>if v:\<close>, \<open>v and ...\<close>, \<open>not v\<close>.\<close>

fun truthy :: "pyval \<Rightarrow> bool" where
  "truthy PNone = False"
| "truthy (PBool b) = b"
| "truthy (PInt i) = (i \<noteq> 0)"
| "truthy (PStr s) = (s \<noteq> [])"
| "truthy (PList xs) = (xs \<noteq> [])"
| "truthy (PDict kvs) = (kvs \<noteq> [])"

fun str_nat :: "nat \<Rightarrow> ustring" where
  "str_nat n = (if n < 10 then [48 + n] else str_nat (n div 10) @ [48 + n mod 10])"

declare str_nat.simps [simp del]

definition str_int :: "int \<Rightarrow> ustring" where
  "str_int i = (if i < 0 then 45 # str_nat (nat (- i)) else str_nat (nat i))"

text \<open>
  \<open>str(v)\<close>. The text of a list or of a dict is not modelled (the result is \<open>None\<close>);
  it starts with a bracket or a brace.
\<close>

fun py_str :: "pyval \<Rightarrow> ustring option" where
  "py_str PNone = Some (ascii ''None'')"
| "py_str (PBool b) = Some (if b then ascii ''True'' else ascii ''False'')"
| "py_str (PInt i) = Some (str_int i)"
| "py_str (PStr s) = Some s"
| "py_str (PList xs) = None"
| "py_str (PDict kvs) = None"

text \<open>A dict built by this module has ASCII keys written in the source.\<close>

type_synonym pydict = "string \<rightharpoonup> pyval"

definition dict_get :: "pydict \<Rightarrow> string \<Rightarrow> pyval \<Rightarrow> pyval" where
  "dict_get d k dflt = (case d k of None \<Rightarrow> dflt | Some v \<Rightarrow> v)"

text \<open>
  Operations on decoded JSON. \<open>None\<close> stands for the exception Python raises:
  \<open>v.get(k, default)\<close> on a value that is no dict (AttributeError), \<open>v[0]\<close> on an empty
  list or string (IndexError), on a dict, whose keys are strings (KeyError), or on a value
  that cannot be subscripted (TypeError), \<open>v.startswith(p)\<close> on a value that is no string
  (AttributeError).
\<close>

fun py_get :: "pyval \<Rightarrow> ustring \<Rightarrow> pyval \<Rightarrow> pyval option" where
  "py_get (PDict kvs) k dflt = Some (case map_of kvs k of None \<Rightarrow> dflt | Some v \<Rightarrow> v)"
| "py_get _ k dflt = None"

fun py_item0 :: "pyval \<Rightarrow> pyval option" where
  "py_item0 (PList (x # xs)) = Some x"
| "py_item0 (PStr (c # cs)) = Some (PStr [c])"
| "py_item0 _ = None"

fun py_startswith :: "pyval \<Rightarrow> ustring \<Rightarrow> bool option" where
  "py_startswith (PStr s) p = Some (prefix p s)"
| "py_startswith _ p = None"

subsection \<open>\<open>str.strip\<close>, \<open>str.replace\<close>, \<open>str.isdigit\<close>\<close>

text \<open>The characters for which \<open>str.isspace\<close> holds; \<open>str.strip()\<close> removes them.\<close>

definition py_isspace :: "nat \<Rightarrow> bool" where
  "py_isspace c \<longleftrightarrow>
     (0x09 \<le> c \<and> c \<le> 0x0D) \<or> (0x1C \<le> c \<and> c \<le> 0x20) \<or> (0x2000 \<le> c \<and> c \<le> 0x200A) \<or>
     c \<in> {0x85, 0xA0, 0x1680, 0x2028, 0x2029, 0x202F, 0x205F, 0x3000}"

definition py_strip :: "ustring \<Rightarrow> ustring" where
  "py_strip s = rev (dropWhile py_isspace (rev (dropWhile py_isspace s)))"

text \<open>
  \<open>s.replace(old, new)\<close>: the occurrences of \<open>old\<close> are replaced from the left, without
  overlap; an empty \<open>old\<close> matches before every character and at the end.
\<close>

function py_replace :: "ustring \<Rightarrow> ustring \<Rightarrow> ustring \<Rightarrow> ustring" where
  "py_replace old new s =
     (if old = [] then new @ concat (map (\<lambda>c. c # new) s)
      else if s = [] then []
      else if prefix old s then new @ py_replace old new (drop (length old) s)
      else hd s # py_replace old new (tl s))"
  by pat_completeness auto
termination
  by (relation "measure (\<lambda>(old, new, s). length s)") auto

declare py_replace.simps [simp del]

text \<open>
  The Unicode decimal digits (category Nd, Unicode 14.0): every run of ten starts at one of
  these code points and carries the values 0 to 9 in order.
\<close>

definition nd_bases :: "nat list" where
  "nd_bases =
    [0x30, 0x660, 0x6F0, 0x7C0, 0x966, 0x9E6, 0xA66, 0xAE6, 0xB66, 0xBE6, 0xC66, 0xCE6, 0xD66,
     0xDE6, 0xE50, 0xED0, 0xF20, 0x1040, 0x1090, 0x17E0, 0x1810, 0x1946, 0x19D0, 0x1A80, 0x1A90,
     0x1B50, 0x1BB0, 0x1C40, 0x1C50, 0xA620, 0xA8D0, 0xA900, 0xA9D0, 0xA9F0, 0xAA50, 0xABF0,
     0xFF10, 0x104A0, 0x10D30, 0x11066, 0x110F0, 0x11136, 0x111D0, 0x112F0, 0x11450, 0x114D0,
     0x11650, 0x116C0, 0x11730, 0x118E0, 0x11950, 0x11C50, 0x11D50, 0x11DA0, 0x16A60, 0x16AC0,
     0x16B50, 0x1D7CE, 0x1D7D8, 0x1D7E2, 0x1D7EC, 0x1D7F6, 0x1E140, 0x1E2F0, 0x1E950, 0x1FBF0]"

definition unicode_decimal :: "nat \<Rightarrow> nat option" where
  "unicode_decimal c =
     (case find (\<lambda>b. b \<le> c \<and> c < b + 10) nd_bases of None \<Rightarrow> None | Some b \<Rightarrow> Some (c - b))"

text \<open>The other characters with the Unicode property Numeric_Type=Digit, as ranges.\<close>

definition digit_ranges :: "(nat \<times> nat) list" where
  "digit_ranges =
    [(0xB2, 0xB3), (0xB9, 0xB9), (0x1369, 0x1371), (0x19DA, 0x19DA), (0x2070, 0x2070),
     (0x2074, 0x2079), (0x2080, 0x2089), (0x2460, 0x2468), (0x2474, 0x247C), (0x2488, 0x2490),
     (0x24EA, 0x24EA), (0x24F5, 0x24FD), (0x24FF, 0x24FF), (0x2776, 0x277E), (0x2780, 0x2788),
     (0x278A, 0x2792), (0x10A40, 0x10A43), (0x10E60, 0x10E68), (0x11052, 0x1105A),
     (0x1F100, 0x1F10A)]"

definition unicode_isdigit :: "nat \<Rightarrow> bool" where
  "unicode_isdigit c \<longleftrightarrow>
     unicode_decimal c \<noteq> None \<or> list_ex (\<lambda>(lo, hi). lo \<le> c \<and> c \<le> hi) digit_ranges"

definition py_isdigit :: "ustring \<Rightarrow> bool" where
  "py_isdigit s \<longleftrightarrow> s \<noteq> [] \<and> list_all unicode_isdigit s"

subsection \<open>\<open>float(s)\<close> and the comparison with zero\<close>

text \<open>
  \<open>float(s)\<close> on a string reads a decimal numeral, an infinity or a NaN. The value is kept
  as what was read: \<open>Finite neg m e\<close> is the decimal \<open>m * 10 ^ e\<close>, negated when \<open>neg\<close>
  holds, which \<open>float\<close> rounds to the nearest double.
\<close>

datatype pyfloat = Finite bool nat int | Infinite bool | NaN

definition is_ascii_digit :: "nat \<Rightarrow> bool" where
  "is_ascii_digit c \<longleftrightarrow> 48 \<le> c \<and> c \<le> 57"

definition digits_value :: "nat list \<Rightarrow> nat" where
  "digits_value ds = foldl (\<lambda>a c. 10 * a + (c - 48)) 0 ds"

text \<open>
  First step of \<open>float\<close> on a \<open>str\<close>: a character beyond ASCII becomes a space when it is
  white space and an ASCII digit when it is a decimal digit; any other one makes the
  conversion fail (\<open>None\<close>, the ValueError).
\<close>

definition to_ascii_char :: "nat \<Rightarrow> nat option" where
  "to_ascii_char c =
     (if c < 128 then Some c
      else if py_isspace c then Some 32
      else map_option (\<lambda>d. 48 + d) (unicode_decimal c))"

fun to_ascii :: "ustring \<Rightarrow> nat list option" where
  "to_ascii [] = Some []"
| "to_ascii (c # cs) =
     (case to_ascii_char c of
        None \<Rightarrow> None
      | Some a \<Rightarrow> map_option ((#) a) (to_ascii cs))"

definition c_isspace :: "nat \<Rightarrow> bool" where
  "c_isspace c \<longleftrightarrow> c = 32 \<or> (9 \<le> c \<and> c \<le> 13)"

definition c_strip :: "nat list \<Rightarrow> nat list" where
  "c_strip s = rev (dropWhile c_isspace (rev (dropWhile c_isspace s)))"

text \<open>
  An underscore is accepted between two digits only, and dropped; \<open>prev\<close> is the character
  before (0 at the start).
\<close>

fun strip_underscores :: "nat \<Rightarrow> nat list \<Rightarrow> nat list option" where
  "strip_underscores prev [] = (if prev = 95 then None else Some [])"
| "strip_underscores prev (c # cs) =
     (if c = 95 then (if is_ascii_digit prev then strip_underscores c cs else None)
      else if prev = 95 \<and> \<not> is_ascii_digit c then None
      else map_option ((#) c) (strip_underscores c cs))"

definition split_sign :: "nat list \<Rightarrow> bool \<times> nat list" where
  "split_sign s =
     (case s of
        [] \<Rightarrow> (False, [])
      | c # cs \<Rightarrow> if c = 45 then (True, cs) else if c = 43 then (False, cs) else (False, s))"

definition ascii_lower :: "nat \<Rightarrow> nat" where
  "ascii_lower c = (if 65 \<le> c \<and> c \<le> 90 then c + 32 else c)"

definition parse_inf_or_nan :: "nat list \<Rightarrow> pyfloat option" where
  "parse_inf_or_nan s =
     (let (neg, r) = split_sign s; l = map ascii_lower r in
      if l = ascii ''inf'' \<or> l = ascii ''infinity'' then Some (Infinite neg)
      else if l = ascii ''nan'' then Some NaN
      else None)"

text \<open>
  A decimal numeral: sign, digits, an optional point and digits (one digit at least in all),
  an optional exponent with a sign and one digit at least; nothing may follow.
\<close>

definition parse_decimal :: "nat list \<Rightarrow> pyfloat option" where
  "parse_decimal s =
     (let (neg, r) = split_sign s;
          ip = takeWhile is_ascii_digit r;
          r1 = dropWhile is_ascii_digit r;
          fp = (if r1 \<noteq> [] \<and> hd r1 = 46 then takeWhile is_ascii_digit (tl r1) else []);
          r2 = (if r1 \<noteq> [] \<and> hd r1 = 46 then dropWhile is_ascii_digit (tl r1) else r1);
          m = digits_value (ip @ fp)
      in if ip = [] \<and> fp = [] then None
         else if r2 = [] then Some (Finite neg m (- int (length fp)))
         else if hd r2 = 101 \<or> hd r2 = 69 then
           (let (eneg, ds) = split_sign (tl r2) in
            if ds \<noteq> [] \<and> list_all is_ascii_digit ds
            then Some (Finite neg m
                   ((if eneg then - int (digits_value ds) else int (digits_value ds))
                     - int (length fp)))
            else None)
         else None)"

definition py_float :: "ustring \<Rightarrow> pyfloat option" where
  "py_float s =
     (case to_ascii s of
        None \<Rightarrow> None
      | Some a \<Rightarrow>
          (case strip_underscores 0 (c_strip a) of
             None \<Rightarrow> None
           | Some b \<Rightarrow>
               (case parse_decimal b of
                  Some v \<Rightarrow> Some v
                | None \<Rightarrow> parse_inf_or_nan b)))"

text \<open>
  \<open>float(s) > 0\<close>. The least positive double is \<open>2 ^ -1074\<close> and rounding is to nearest,
  ties to even, so a decimal rounds to a double above zero exactly when it is above
  \<open>2 ^ -1075\<close>; a decimal too large for a double becomes the positive infinity.
\<close>

fun float_gt_zero :: "pyfloat \<Rightarrow> bool" where
  "float_gt_zero (Finite neg m e) =
     (\<not> neg \<and> (if 0 \<le> e then 0 < m else 10 ^ nat (- e) < m * 2 ^ 1075))"
| "float_gt_zero (Infinite neg) = (\<not> neg)"
| "float_gt_zero NaN = False"


section \<open>The status heuristic (\<open>_get_order_status\<close>)\<close>

text \<open>
  The script that \<open>_get_order_status\<close> evaluates in the page walks the text nodes under
  \<open>document.body\<close>. A document is the list of these text nodes in the order the TreeWalker
  visits them. A node carries its \<open>textContent\<close> and, when it has a parent element, the two
  numbers the script reads off the parent's computed style: \<open>parseInt(style.fontSize) || 0\<close>
  and \<open>parseInt(style.fontWeight) || 0\<close> (a computed font size is a non-negative length in
  pixels, a computed weight a number from 1 to 1000).
\<close>

record style =
  fontSize :: nat
  fontWeight :: nat

record text_node =
  textContent :: ustring
  parentElement :: "style option"

record status_item =
  item_text :: ustring
  item_status :: string
  item_priority :: nat

definition statusMap :: "status_item list" where
  "statusMap = map (\<lambda>(t, s, p). \<lparr>item_text = t, item_status = s, item_priority = p\<rparr>)
    [([0x4E70, 0x5BB6, 0x53D6, 0x6D88, 0x4E86, 0x8BA2, 0x5355], ''cancelled'', 100),
     ([0x5356, 0x5BB6, 0x53D6, 0x6D88, 0x4E86, 0x8BA2, 0x5355], ''cancelled'', 100),
     ([0x4EA4, 0x6613, 0x5173, 0x95ED], ''cancelled'', 90),
     ([0x8BA2, 0x5355, 0x5DF2, 0x5173, 0x95ED], ''cancelled'', 90),
     ([0x5356, 0x5BB6, 0x5DF2, 0x53D1, 0x8D27, 0xFF0C, 0x5F85, 0x4E70, 0x5BB6, 0x786E, 0x8BA4,
       0x6536, 0x8D27], ''shipped'', 85),
     ([0x5DF2, 0x53D1, 0x8D27, 0xFF0C, 0x5F85, 0x4E70, 0x5BB6, 0x786E, 0x8BA4, 0x6536, 0x8D27],
       ''shipped'', 80),
     ([0x5356, 0x5BB6, 0x5DF2, 0x53D1, 0x8D27], ''shipped'', 75),
     ([0x5DF2, 0x53D1, 0x8D27], ''shipped'', 70),
     ([0x5F85, 0x4E70, 0x5BB6, 0x786E, 0x8BA4, 0x6536, 0x8D27], ''shipped'', 65),
     ([0x4E70, 0x5BB6, 0x5DF2, 0x4ED8, 0x6B3E, 0xFF0C, 0x8BF7, 0x5C3D, 0x5FEB, 0x53D1, 0x8D27],
       ''pending_ship'', 60),
     ([0x4E70, 0x5BB6, 0x5DF2, 0x4ED8, 0x6B3E], ''pending_ship'', 55),
     ([0x5F85, 0x53D1, 0x8D27], ''pending_ship'', 50),
     ([0x7B49, 0x5F85, 0x5356, 0x5BB6, 0x53D1, 0x8D27], ''pending_ship'', 45),
     ([0x4EA4, 0x6613, 0x6210, 0x529F], ''completed'', 40),
     ([0x8BA2, 0x5355, 0x5B8C, 0x6210], ''completed'', 35),
     ([0x4EA4, 0x6613, 0x5B8C, 0x6210], ''completed'', 30),
     ([0x9000, 0x6B3E, 0x4E2D], ''refunding'', 25),
     ([0x7533, 0x8BF7, 0x9000, 0x6B3E], ''refunding'', 20),
     ([0x5904, 0x7406, 0x4E2D], ''processing'', 10)]"

text \<open>
  \<open>String.prototype.trim\<close> removes the ECMAScript white space and line terminator code
  units from both ends.
\<close>

definition js_whitespace :: "nat \<Rightarrow> bool" where
  "js_whitespace c \<longleftrightarrow>
     c \<in> {0x09, 0x0A, 0x0B, 0x0C, 0x0D, 0x20, 0xA0, 0x1680, 0x2028, 0x2029, 0x202F, 0x205F,
           0x3000, 0xFEFF} \<or> (0x2000 \<le> c \<and> c \<le> 0x200A)"

definition js_trim :: "ustring \<Rightarrow> ustring" where
  "js_trim s = rev (dropWhile js_whitespace (rev (dropWhile js_whitespace s)))"

definition js_includes :: "ustring \<Rightarrow> ustring \<Rightarrow> bool" where
  "js_includes text phrase = sublist phrase text"

text \<open>
  The best match so far: the status of the matched table entry and its score
  (\<open>bestMatch.status\<close>, \<open>bestMatch.score\<close>); \<open>bestScore\<close> starts at -1.
\<close>

record scan_state =
  bestMatch :: "(string \<times> int) option"
  bestScore :: int

definition node_score :: "status_item \<Rightarrow> style \<Rightarrow> int" where
  "node_score item st =
     int (item_priority item) + int (fontSize st) + (if fontWeight st > 500 then 5 else 0)"

text \<open>
  One turn of the \<open>while\<close> loop. The inner \<open>for\<close> loop stops at the first table entry
  whose phrase the text includes (\<open>break\<close>), whether or not that entry improves the score.
\<close>

definition scan_node :: "scan_state \<Rightarrow> text_node \<Rightarrow> scan_state" where
  "scan_node s node =
     (let text = js_trim (textContent node) in
      if text = [] \<or> length text < 2 \<or> length text > 100 then s
      else (case find (\<lambda>item. js_includes text (item_text item)) statusMap of
              None \<Rightarrow> s
            | Some item \<Rightarrow>
                (case parentElement node of
                   None \<Rightarrow> s
                 | Some st \<Rightarrow>
                     (let score = node_score item st in
                      if score > bestScore s
                      then \<lparr>bestMatch = Some (item_status item, score), bestScore = score\<rparr>
                      else s))))"

definition maxNodes :: nat where
  "maxNodes = 5000"

definition status_script :: "text_node list \<Rightarrow> (string \<times> int) option" where
  "status_script doc =
     bestMatch (foldl scan_node \<lparr>bestMatch = None, bestScore = - 1\<rparr> (take maxNodes doc))"


section \<open>The fetch session (\<open>OrderFetcherOptimized.fetch_order_complete\<close>)\<close>

text \<open>
  An exception of class \<open>Exception\<close> raised by a collaborator (the store, the browser pool,
  the page, a lock), with the text \<open>str(e)\<close>.
\<close>

datatype exn = Raised ustring

fun exn_str :: "exn \<Rightarrow> ustring" where
  "exn_str (Raised msg) = msg"

text \<open>
  Modelled from the spec: the row type of the persistent store. \<open>db_manager\<close> is not part
  of this module; the spec gives the store the contract \<open>getByKey(order_id) -> OrderRecord|None\<close>
  with \<open>order_id\<close> the primary key of a record. A row therefore always carries its
  \<open>order_id\<close> (read as \<open>existing_order['order_id']\<close>); every other key is read with
  \<open>.get\<close> and may be missing.
\<close>

record stored_order =
  stored_order_id :: pyval
  stored_fields :: pydict

text \<open>
  The validity check on the stored amount, lines 84 to 93: \<open>amount\<close> is
  \<open>existing_order.get('amount', '')\<close>. The text of a list or dict starts with a bracket, which
  \<open>float\<close> rejects.
\<close>

definition amount_valid :: "pyval \<Rightarrow> bool" where
  "amount_valid amount =
     (if truthy amount then
        (case py_str amount of
           None \<Rightarrow> False
         | Some text \<Rightarrow>
             (let amount_clean =
                    py_strip (py_replace [0x24] [] (py_replace [0xFFE5] []
                      (py_replace [0xA5] [] text)))
              in case py_float amount_clean of
                   None \<Rightarrow> False
                 | Some amount_value \<Rightarrow> float_gt_zero amount_value))
      else False)"

text \<open>
  Of the dict a session returns, the keys \<open>order_id\<close>, \<open>order_status\<close>, \<open>quantity\<close>,
  \<open>from_cache\<close>, \<open>api_status\<close> and \<open>dom_status\<close> are followed. The other keys hold copies
  of stored, intercepted or scanned values, the URL, the page title and the time.
\<close>

definition cached_result :: "stored_order \<Rightarrow> pydict" where
  "cached_result existing_order =
     [''order_id'' \<mapsto> stored_order_id existing_order,
      ''order_status'' \<mapsto>
         dict_get (stored_fields existing_order) ''order_status'' (PStr (ascii ''unknown'')),
      ''quantity'' \<mapsto> dict_get (stored_fields existing_order) ''quantity'' (PStr []),
      ''from_cache'' \<mapsto> PBool True]"

subsection \<open>\<open>_parse_api_response\<close>\<close>

definition STATUS_CODE_MAP :: "(ustring \<times> ustring) list" where
  "STATUS_CODE_MAP =
    [(ascii ''1'', ascii ''processing''),
     (ascii ''2'', ascii ''pending_ship''),
     (ascii ''3'', ascii ''shipped''),
     (ascii ''4'', ascii ''completed''),
     (ascii ''7'', ascii ''refunding''),
     (ascii ''8'', ascii ''cancelled''),
     (ascii ''9'', ascii ''refunding''),
     (ascii ''10'', ascii ''cancelled''),
     (ascii ''11'', ascii ''completed''),
     (ascii ''12'', ascii ''cancelled'')]"

definition STATUS_CODE_MAP_get :: "ustring \<Rightarrow> ustring \<Rightarrow> ustring" where
  "STATUS_CODE_MAP_get k dflt = (case map_of STATUS_CODE_MAP k of None \<Rightarrow> dflt | Some v \<Rightarrow> v)"

definition status_names :: "ustring list" where
  "status_names =
    [ascii ''processing'', ascii ''pending_ship'', ascii ''shipped'', ascii ''completed'',
     ascii ''cancelled'', ascii ''refunding'', ascii ''unknown'']"

text \<open>
  The status the parser stores for the \<open>status\<close> value of the payload. The text of a list or
  dict starts with a bracket and is no key of the table.
\<close>

definition resolve_status :: "pyval \<Rightarrow> ustring" where
  "resolve_status status_code =
     (case status_code of
        PStr s \<Rightarrow>
          if s \<in> set status_names then s
          else if py_isdigit s then STATUS_CODE_MAP_get s (ascii ''unknown'')
          else s
      | _ \<Rightarrow>
          (case py_str status_code of
             None \<Rightarrow> ascii ''unknown''
           | Some text \<Rightarrow> STATUS_CODE_MAP_get text (ascii ''unknown'')))"

text \<open>
  Of the dict \<open>_parse_api_response\<close> returns, the entry \<open>order_status\<close> is followed. It is
  stored first; an exception before it (\<open>order_data\<close> is no dict) leaves the dict empty, and
  one after it is caught by the function's own handler and leaves the entry as it is.
\<close>

definition parse_api_response :: "pyval \<Rightarrow> pydict" where
  "parse_api_response order_data =
     (case py_get order_data (ascii ''status'') (PStr (ascii ''unknown'')) of
        None \<Rightarrow> Map.empty
      | Some status_code \<Rightarrow> [''order_status'' \<mapsto> PStr (resolve_status status_code)])"

text \<open>
  Lines 199 to 211: the API data of the session, from the intercepted bodies. \<open>None\<close> is an
  exception, which ends the session. The \<open>else\<close> branch evaluates
  \<open>api_result.get('ret', [...])[0]\<close> for its log line.
\<close>

definition unknown_error_text :: ustring where
  "unknown_error_text = [0x672A, 0x77E5, 0x9519, 0x8BEF]"

definition log_api_failure :: "pyval \<Rightarrow> pydict option" where
  "log_api_failure api_result =
     (case py_get api_result (ascii ''ret'') (PList [PStr unknown_error_text]) of
        None \<Rightarrow> None
      | Some ret \<Rightarrow> (case py_item0 ret of None \<Rightarrow> None | Some r0 \<Rightarrow> Some Map.empty))"

definition session_api_data :: "pyval list \<Rightarrow> pydict option" where
  "session_api_data api_responses =
     (case api_responses of
        [] \<Rightarrow> Some Map.empty
      | api_result # _ \<Rightarrow>
          (case py_get api_result (ascii ''ret'') PNone of
             None \<Rightarrow> None
           | Some ret \<Rightarrow>
               if truthy ret then
                 (case py_item0 ret of
                    None \<Rightarrow> None
                  | Some r0 \<Rightarrow>
                      (case py_startswith r0 (ascii ''SUCCESS'') of
                         None \<Rightarrow> None
                       | Some True \<Rightarrow>
                           map_option parse_api_response
                             (py_get api_result (ascii ''data'') (PDict []))
                       | Some False \<Rightarrow> log_api_failure api_result))
               else log_api_failure api_result))"


subsection \<open>The page and \<open>_parse_dom_content\<close>\<close>

text \<open>
  What the browser page answers during one session. Each call raises or returns.
  \<open>page_api_responses\<close> is \<open>self.api_responses\<close> as the route handler has left it when the
  session reads it: the decoded bodies of the order-detail responses, in arrival order.
  \<open>page_evaluate_status\<close> is the call of \<open>page.evaluate\<close> with the status script: it raises,
  or the script runs on the document given.
\<close>

record element =
  text_content :: "exn + ustring option"

record page =
  page_route :: "exn + unit"
  page_goto :: "exn + int option"
  page_scroll_bottom :: "exn + unit"
  page_scroll_top :: "exn + unit"
  page_api_responses :: "pyval list"
  page_query_amount :: "exn + element option"
  page_query_sku :: "exn + element list"
  page_evaluate_status :: "exn + text_node list"
  page_title :: "exn + ustring"

definition get_order_status :: "page \<Rightarrow> ustring" where
  "get_order_status pg =
     (case page_evaluate_status pg of
        Inl e \<Rightarrow> ascii ''unknown''
      | Inr doc \<Rightarrow>
          (case status_script doc of
             Some match_info \<Rightarrow> ascii (fst match_info)
           | None \<Rightarrow> ascii ''unknown''))"

text \<open>Lines 412 to 419: the quantity read off the text of the second sku element.\<close>

definition quantity_value :: "ustring \<Rightarrow> ustring" where
  "quantity_value quantity_content =
     (let v = (if 58 \<in> set quantity_content
               then py_strip (tl (dropWhile (\<lambda>c. c \<noteq> 58) quantity_content))
               else py_strip quantity_content)
      in if prefix [120] v then tl v else v)"

text \<open>
  Of the dict \<open>_parse_dom_content\<close> returns, the entries \<open>quantity\<close> and
  \<open>order_status_dom\<close> are followed. An exception of a page call leaves the function through
  its handler with the entries stored so far, neither of these two. \<open>_get_order_time\<close> and
  \<open>_get_receiver_info\<close> catch their own exceptions and store other entries.
\<close>

definition parse_dom_content :: "page \<Rightarrow> pydict" where
  "parse_dom_content pg =
     (case page_query_amount pg of
        Inl e \<Rightarrow> Map.empty
      | Inr amount_element \<Rightarrow>
     (case (case amount_element of None \<Rightarrow> Inr None | Some el \<Rightarrow> text_content el) of
        Inl e \<Rightarrow> Map.empty
      | Inr amount_text \<Rightarrow>
     (case page_query_sku pg of
        Inl e \<Rightarrow> Map.empty
      | Inr sku_elements \<Rightarrow>
     (case (if length sku_elements \<ge> 1 then text_content (sku_elements ! 0) else Inr None) of
        Inl e \<Rightarrow> Map.empty
      | Inr spec_content \<Rightarrow>
     (case (if length sku_elements \<ge> 2 then text_content (sku_elements ! 1) else Inr None) of
        Inl e \<Rightarrow> Map.empty
      | Inr quantity_content \<Rightarrow>
          [''quantity'' \<mapsto>
             PStr (case quantity_content of
                     None \<Rightarrow> ascii ''1''
                   | Some qc \<Rightarrow> if qc \<noteq> [] then quantity_value qc else ascii ''1''),
           ''order_status_dom'' \<mapsto> PStr (get_order_status pg)])))))"

subsection \<open>The session\<close>

text \<open>Lines 218 to 256: the merged result.\<close>

definition merged_result :: "ustring \<Rightarrow> pydict \<Rightarrow> pydict \<Rightarrow> pydict" where
  "merged_result order_id api_data dom_data =
     (let api_status = dict_get api_data ''order_status'' (PStr (ascii ''unknown''));
          dom_status = dict_get dom_data ''order_status_dom'' PNone
      in [''order_id'' \<mapsto> PStr order_id,
          ''from_cache'' \<mapsto> PBool False,
          ''api_status'' \<mapsto> api_status,
          ''dom_status'' \<mapsto>
             (if truthy dom_status then dom_status else PStr (ascii ''not_detected'')),
          ''order_status'' \<mapsto>
             (if truthy dom_status \<and> dom_status \<noteq> PStr (ascii ''unknown'')
              then dom_status else api_status),
          ''quantity'' \<mapsto> dict_get dom_data ''quantity'' (PStr (ascii ''1''))])"

text \<open>
  What the collaborators answer during one session. \<open>semaphore_enter\<close> is the entry into
  \<open>async with semaphore\<close> of the batch runner, \<open>lock_enter\<close> the construction of the fetcher
  and the entry into \<open>async with order_lock\<close>: both lie outside every \<open>try\<close>.
  \<open>get_order_by_id\<close> is the import of \<open>db_manager\<close> and the lookup, \<open>get_browser\<close> the call
  of the browser pool, whose answer is a page or a false value.
\<close>

record session_env =
  semaphore_enter :: "exn + unit"
  lock_enter :: "exn + unit"
  get_order_by_id :: "exn + stored_order option"
  get_browser :: "exn + page option"

text \<open>Lines 134 to 261, after the cache check; \<open>None\<close> is \<open>return None\<close>.\<close>

definition live_fetch :: "session_env \<Rightarrow> ustring \<Rightarrow> bool \<Rightarrow> pydict option" where
  "live_fetch env order_id use_pool =
     (if \<not> use_pool then None
      else case get_browser env of
        Inl e \<Rightarrow> None
      | Inr None \<Rightarrow> None
      | Inr (Some pg) \<Rightarrow>
     (case page_route pg of
        Inl e \<Rightarrow> None
      | Inr u \<Rightarrow>
     (case page_goto pg of
        Inl e \<Rightarrow> None
      | Inr None \<Rightarrow> None
      | Inr (Some status) \<Rightarrow>
          if status \<noteq> 200 then None
          else
     (case page_scroll_bottom pg of
        Inl e \<Rightarrow> None
      | Inr u \<Rightarrow>
     (case page_scroll_top pg of
        Inl e \<Rightarrow> None
      | Inr u \<Rightarrow>
     (case session_api_data (page_api_responses pg) of
        None \<Rightarrow> None
      | Some api_data \<Rightarrow>
          (let dom_data = parse_dom_content pg in
           case page_title pg of
             Inl e \<Rightarrow> None
           | Inr t \<Rightarrow> Some (merged_result order_id api_data dom_data))))))))"

text \<open>
  The body of the \<open>try\<close>, lines 77 to 266: every exception in it gives \<open>None\<close>. The
  \<open>finally\<close> block closes the page and does not change what is returned.
\<close>

definition fetch_order_complete_try ::
  "session_env \<Rightarrow> ustring \<Rightarrow> bool \<Rightarrow> bool \<Rightarrow> pydict option" where
  "fetch_order_complete_try env order_id use_pool force_refresh =
     (case get_order_by_id env of
        Inl e \<Rightarrow> None
      | Inr None \<Rightarrow> live_fetch env order_id use_pool
      | Inr (Some existing_order) \<Rightarrow>
          (let amount = dict_get (stored_fields existing_order) ''amount'' (PStr []) in
           if amount_valid amount \<and> \<not> force_refresh
           then Some (cached_result existing_order)
           else live_fetch env order_id use_pool))"

definition fetch_order_complete ::
  "session_env \<Rightarrow> ustring \<Rightarrow> bool \<Rightarrow> bool \<Rightarrow> exn + pydict option" where
  "fetch_order_complete env order_id use_pool force_refresh =
     (case lock_enter env of
        Inl e \<Rightarrow> Inl e
      | Inr u \<Rightarrow> Inr (fetch_order_complete_try env order_id use_pool force_refresh))"


section \<open>The batch runners\<close>

text \<open>
  \<open>process_orders_batch\<close> starts one task per order id and awaits them with
  \<open>asyncio.gather(..., return_exceptions=True)\<close>, which answers position by position, in the
  order of the tasks: the value a task returned, or the exception it raised. The semaphore
  is taken with at least one permit, so every task runs; the order in which the tasks run
  does not show in the answer. The collaborators of the task at position \<open>index\<close> are
  \<open>envs index\<close>.
\<close>

definition fetch_failed_text :: ustring where
  "fetch_failed_text = [0x83B7, 0x53D6, 0x8BA2, 0x5355, 0x4FE1, 0x606F, 0x5931, 0x8D25]"

definition failure_entry :: "ustring \<Rightarrow> ustring \<Rightarrow> pydict" where
  "failure_entry order_id msg =
     [''order_id'' \<mapsto> PStr order_id, ''success'' \<mapsto> PBool False, ''error'' \<mapsto> PStr msg]"

text \<open>
  Lines 688 to 734; \<open>Inl\<close> is an exception that leaves the task. A record that a session
  returns is a dict with entries, which \<open>if result:\<close> takes as true.
\<close>

definition process_single_order ::
  "session_env \<Rightarrow> ustring \<Rightarrow> bool \<Rightarrow> bool \<Rightarrow> exn + pydict" where
  "process_single_order env order_id use_pool force_refresh =
     (case semaphore_enter env of
        Inl e \<Rightarrow> Inl e
      | Inr u \<Rightarrow>
          Inr (case fetch_order_complete env order_id use_pool force_refresh of
                 Inl e \<Rightarrow> failure_entry order_id (exn_str e)
               | Inr None \<Rightarrow> failure_entry order_id fetch_failed_text
               | Inr (Some result) \<Rightarrow> result))"

definition process_orders_batch ::
  "(nat \<Rightarrow> session_env) \<Rightarrow> ustring list \<Rightarrow> bool \<Rightarrow> bool \<Rightarrow> pydict list" where
  "process_orders_batch envs order_ids use_pool force_refresh =
     (let results =
            map (\<lambda>(index, order_id).
                   process_single_order (envs index) order_id use_pool force_refresh)
                (enumerate 0 order_ids)
      in map (\<lambda>(i, result).
                case result of
                  Inl e \<Rightarrow> failure_entry (order_ids ! i) (exn_str e)
                | Inr r \<Rightarrow> r)
             (enumerate 0 results))"

text \<open>
  \<open>order_ids[start:stop]\<close> with Python's reading of indices that are negative or beyond
  the end.
\<close>

definition slice_index :: "int \<Rightarrow> nat \<Rightarrow> nat" where
  "slice_index i n = (if i < 0 then nat (max 0 (int n + i)) else min (nat i) n)"

definition py_slice :: "'a list \<Rightarrow> int \<Rightarrow> int \<Rightarrow> 'a list" where
  "py_slice xs start stop =
     (let a = slice_index start (length xs); b = slice_index stop (length xs)
      in take (b - a) (drop a xs))"

text \<open>
  \<open>process_orders_in_batches\<close>. Besides the results the model returns what the function
  did, in order: the batches it handed to \<open>process_orders_batch\<close> and the delays it slept.
  The collaborators of the task at position \<open>index\<close> of batch \<open>batch_index\<close> are
  \<open>envs batch_index index\<close>. The batch runner is called without \<open>force_refresh\<close>, whose
  default is \<open>False\<close>. A \<open>batch_size\<close> of 0 raises in the division of line 802.
\<close>

datatype 'd event = RunBatch "ustring list" | Sleep 'd

datatype batch_error = ZeroDivisionError

definition batch_step ::
  "(nat \<Rightarrow> nat \<Rightarrow> session_env) \<Rightarrow> ustring list \<Rightarrow> int \<Rightarrow> bool \<Rightarrow> 'd \<Rightarrow> int \<Rightarrow>
   pydict list \<times> 'd event list \<Rightarrow> int \<Rightarrow> pydict list \<times> 'd event list" where
  "batch_step envs order_ids batch_size use_pool batch_delay total_batches st batch_index =
     (let total_orders = int (length order_ids);
          start_idx = batch_index * batch_size;
          end_idx = min ((batch_index + 1) * batch_size) total_orders;
          batch_order_ids = py_slice order_ids start_idx end_idx;
          batch_results =
            process_orders_batch (envs (nat batch_index)) batch_order_ids use_pool False
      in (fst st @ batch_results,
          snd st @ [RunBatch batch_order_ids] @
            (if batch_index < total_batches - 1 then [Sleep batch_delay] else [])))"

definition process_orders_in_batches ::
  "(nat \<Rightarrow> nat \<Rightarrow> session_env) \<Rightarrow> ustring list \<Rightarrow> int \<Rightarrow> bool \<Rightarrow> 'd \<Rightarrow>
   batch_error + pydict list \<times> 'd event list" where
  "process_orders_in_batches envs order_ids batch_size use_pool batch_delay =
     (if batch_size = 0 then Inl ZeroDivisionError
      else
        (let total_orders = int (length order_ids);
             total_batches = (total_orders + batch_size - 1) div batch_size
         in Inr (foldl (batch_step envs order_ids batch_size use_pool batch_delay total_batches)
                   ([], []) (map int [0..<nat total_batches]))))"


text \<open>
  For stating what \<open>process_orders_in_batches\<close> does: chunk \<open>k\<close> of size \<open>s\<close> of a list,
  the number of chunks (the quotient of the division, rounded up), the batches and the delays
  of a trace, and the events of chunk \<open>k\<close> among \<open>nb\<close> chunks: the batch, and the delay
  unless the chunk is the last.
\<close>

definition chunk :: "nat \<Rightarrow> nat \<Rightarrow> 'a list \<Rightarrow> 'a list" where
  "chunk s k xs = take s (drop (k * s) xs)"

definition num_chunks :: "nat \<Rightarrow> nat \<Rightarrow> nat" where
  "num_chunks n s = (n + s - 1) div s"

definition batches_of :: "'d event list \<Rightarrow> ustring list list" where
  "batches_of trace = concat (map (\<lambda>e. case e of RunBatch ids \<Rightarrow> [ids] | Sleep d \<Rightarrow> []) trace)"

definition delays_of :: "'d event list \<Rightarrow> 'd list" where
  "delays_of trace = concat (map (\<lambda>e. case e of RunBatch ids \<Rightarrow> [] | Sleep d \<Rightarrow> [d]) trace)"

definition chunk_events :: "nat \<Rightarrow> 'd \<Rightarrow> ustring list \<Rightarrow> nat \<Rightarrow> nat \<Rightarrow> 'd event list" where
  "chunk_events s d ids nb k =
     RunBatch (chunk s k ids) # (if k + 1 < nb then [Sleep d] else [])"

text \<open>
  For stating what the status script computes. The candidate of a node: when its trimmed
  text has at most 100 code units and includes a phrase of the table, and the node has a
  parent element, the status of the first such table entry and the score
  \<open>priority + fontSize + (5 if fontWeight > 500 else 0)\<close>. \<open>keep_best\<close> keeps a
  candidate when its score is above the best score so far, and \<open>best_of cs s\<close> says that
  the state \<open>s\<close> holds the first candidate of \<open>cs\<close> with the highest score.
\<close>

definition matching_items :: "ustring \<Rightarrow> status_item list" where
  "matching_items text = filter (\<lambda>item. js_includes text (item_text item)) statusMap"

definition candidate :: "text_node \<Rightarrow> (string \<times> int) option" where
  "candidate node =
     (let text = js_trim (textContent node) in
      if length text \<le> 100 \<and> matching_items text \<noteq> []
      then map_option (\<lambda>st. (item_status (hd (matching_items text)),
                             node_score (hd (matching_items text)) st))
             (parentElement node)
      else None)"

definition keep_best :: "scan_state \<Rightarrow> string \<times> int \<Rightarrow> scan_state" where
  "keep_best s c = (if snd c > bestScore s then \<lparr>bestMatch = Some c, bestScore = snd c\<rparr> else s)"

definition best_of :: "(string \<times> int) list \<Rightarrow> scan_state \<Rightarrow> bool" where
  "best_of cs s \<longleftrightarrow>
     (\<exists>i<length cs. bestMatch s = Some (cs ! i) \<and> bestScore s = snd (cs ! i) \<and>
        (\<forall>j<length cs. snd (cs ! j) \<le> snd (cs ! i)) \<and> (\<forall>j<i. snd (cs ! j) < snd (cs ! i)))"

text \<open>A page that answers every call and shows the document given, for examples.\<close>

definition page_showing :: "text_node list \<Rightarrow> page" where
  "page_showing doc =
     \<lparr>page_route = Inr (), page_goto = Inr (Some 200), page_scroll_bottom = Inr (),
      page_scroll_top = Inr (), page_api_responses = [], page_query_amount = Inr None,
      page_query_sku = Inr [], page_evaluate_status = Inr doc, page_title = Inr []\<rparr>"

text \<open>
  The validity of a stored amount in the words of the specification: the text of the amount,
  with the currency signs (the yen sign, the fullwidth yen sign, the dollar sign) taken out
  and the white space around it stripped, is read by \<open>float\<close> as a number above zero.
\<close>

definition stripped_amount :: "ustring \<Rightarrow> ustring" where
  "stripped_amount text = py_strip (filter (\<lambda>c. c \<notin> {0xA5, 0xFFE5, 0x24}) text)"

definition spec_amount_valid :: "pyval \<Rightarrow> bool" where
  "spec_amount_valid amount =
     (case py_str amount of
        None \<Rightarrow> False
      | Some text \<Rightarrow>
          (case py_float (stripped_amount text) of
             None \<Rightarrow> False
           | Some v \<Rightarrow> float_gt_zero v))"

definition stored_amount :: "stored_order \<Rightarrow> pyval" where
  "stored_amount row = dict_get (stored_fields row) ''amount'' (PStr [])"

text \<open>
  For examples: the collaborators of a session with no stored record and with the page
  given, and an intercepted body that reports success and carries the status given.
\<close>

definition env_with_page :: "page \<Rightarrow> session_env" where
  "env_with_page pg =
     \<lparr>semaphore_enter = Inr (), lock_enter = Inr (), get_order_by_id = Inr None,
      get_browser = Inr (Some pg)\<rparr>"

definition api_body :: "pyval \<Rightarrow> pyval" where
  "api_body status =
     PDict [(ascii ''ret'', PList [PStr (ascii ''SUCCESS::OK'')]),
            (ascii ''data'', PDict [(ascii ''status'', status)])]"

text \<open>
  For examples: a document with the one text of the buyer's cancellation.
\<close>

definition cancelled_doc :: "text_node list" where
  "cancelled_doc =
     [\<lparr>textContent = [0x4E70, 0x5BB6, 0x53D6, 0x6D88, 0x4E86, 0x8BA2, 0x5355],
       parentElement = Some \<lparr>fontSize = 14, fontWeight = 400\<rparr>\<rparr>]"

text \<open>
  For examples: a stored row with an amount of 12.50 and no other key, and the collaborators
  of a session that finds the row given in the store and gets no page from the pool.
\<close>

definition priced_row :: stored_order where
  "priced_row =
     \<lparr>stored_order_id = PStr (ascii ''A1''),
      stored_fields = [''amount'' \<mapsto> PStr (0xA5 # ascii ''12.50'')]\<rparr>"

definition env_with_row :: "stored_order \<Rightarrow> session_env" where
  "env_with_row row =
     \<lparr>semaphore_enter = Inr (), lock_enter = Inr (), get_order_by_id = Inr (Some row),
      get_browser = Inr None\<rparr>"

text \<open>
  For examples: the store raises at the lookup, and the page shows the buyer's cancellation.
\<close>

definition env_store_down :: session_env where
  "env_store_down =
     (env_with_page (page_showing cancelled_doc))
       \<lparr>get_order_by_id := Inl (Raised (ascii ''database is locked''))\<rparr>"

text \<open>
  For examples: the intercepted body carries the status string \<open>TRADE_CLOSED\<close> and the
  page shows no text.
\<close>

definition env_raw_status :: session_env where
  "env_raw_status =
     env_with_page ((page_showing [])\<lparr>page_api_responses :=
       [api_body (PStr (ascii ''TRADE_CLOSED''))]\<rparr>)"

text \<open>
  For stating what the batch runner returns at one position: the entry that the task of
  that position leaves in the result list.
\<close>

definition entry_of :: "session_env \<Rightarrow> ustring \<Rightarrow> bool \<Rightarrow> bool \<Rightarrow> pydict" where
  "entry_of env order_id use_pool force_refresh =
     (case semaphore_enter env of
        Inl e \<Rightarrow> failure_entry order_id (exn_str e)
      | Inr u \<Rightarrow>
          (case fetch_order_complete env order_id use_pool force_refresh of
             Inl e \<Rightarrow> failure_entry order_id (exn_str e)
           | Inr None \<Rightarrow> failure_entry order_id fetch_failed_text
           | Inr (Some r) \<Rightarrow> r))"

text \<open>
  For examples: a page whose navigation raises, the collaborators of a batch of three whose
  second session meets that page, and the record of a live session on the page that shows the
  buyer's cancellation.
\<close>

definition timeout_page :: page where
  "timeout_page =
     (page_showing cancelled_doc)\<lparr>page_goto := Inl (Raised (ascii ''Timeout 30000ms exceeded''))\<rparr>"

definition example_batch_envs :: "nat \<Rightarrow> session_env" where
  "example_batch_envs index =
     (if index = 1 then env_with_page timeout_page
      else env_with_page (page_showing cancelled_doc))"

definition cancelled_record :: "ustring \<Rightarrow> pydict" where
  "cancelled_record order_id =
     [''order_id'' \<mapsto> PStr order_id, ''from_cache'' \<mapsto> PBool False,
      ''api_status'' \<mapsto> PStr (ascii ''unknown''),
      ''dom_status'' \<mapsto> PStr (ascii ''cancelled''),
      ''order_status'' \<mapsto> PStr (ascii ''cancelled''),
      ''quantity'' \<mapsto> PStr (ascii ''1'')]"

section \<open>Properties of the chunked runner\<close>

lemma py_slice_chunk:
  assumes "0 < s"
  shows "py_slice xs (int k * int s) (min ((int k + 1) * int s) (int (length xs))) = chunk s k xs"
proof -
  let ?n = "length xs"
  have si: "slice_index (int m) n = min m n" for m n
    by (simp add: slice_index_def)
  have e1: "int k * int s = int (k * s)" by simp
  have "(int k + 1) * int s = int ((k + 1) * s)" by (simp add: algebra_simps)
  then have e2: "min ((int k + 1) * int s) (int ?n) = int (min ((k + 1) * s) ?n)"
    by (simp only: of_nat_min)
  have p: "py_slice xs (int k * int s) (min ((int k + 1) * int s) (int ?n))
      = take (min (min ((k + 1) * s) ?n) ?n - min (k * s) ?n) (drop (min (k * s) ?n) xs)"
    unfolding py_slice_def Let_def e1 e2 si ..
  show ?thesis
  proof (cases "k * s \<le> ?n")
    case True
    have m: "min (k * s) ?n = k * s" using True by simp
    have d: "min (min ((k + 1) * s) ?n) ?n - k * s = min s (?n - k * s)"
      using True by (cases "(k + 1) * s \<le> ?n") auto
    have "take (min s (?n - k * s)) (drop (k * s) xs) = take s (drop (k * s) xs)"
      by (simp add: min_def)
    then show ?thesis unfolding p m d chunk_def .
  next
    case False
    then have m: "min (k * s) ?n = ?n" by simp
    have "drop (k * s) xs = []" using False by simp
    then show ?thesis unfolding p m chunk_def by simp
  qed
qed


lemma total_batches_nat:
  assumes "0 < s"
  shows "(int n + int s - 1) div int s = int (num_chunks n s)"
proof -
  have "int (num_chunks n s) = int (n + s - 1) div int s"
    unfolding num_chunks_def by (rule zdiv_int)
  moreover have "int (n + s - 1) = int n + int s - 1" using assms by simp
  ultimately show ?thesis by (simp only:)
qed

lemma concat_chunks_take:
  "concat (map (\<lambda>k. chunk s k xs) [0..<n]) = take (n * s) xs"
proof (induction n)
  case 0
  then show ?case by simp
next
  case (Suc n)
  have "take (n * s) xs @ take s (drop (n * s) xs) = take (n * s + s) xs"
    by (simp add: take_add)
  with Suc show ?case by (simp add: chunk_def add.commute)
qed

lemma num_chunks_bounds:
  assumes "0 < s"
  shows "n \<le> num_chunks n s * s" and "num_chunks n s * s < n + s"
proof -
  define q where "q = (n + s - 1) div s * s"
  define r where "r = (n + s - 1) mod s"
  have "r < s" unfolding r_def using assms by simp
  moreover have "q + r = n + s - 1" unfolding q_def r_def by simp
  ultimately have "n \<le> q" and "q < n + s" using assms by linarith+
  then show "n \<le> num_chunks n s * s" and "num_chunks n s * s < n + s"
    unfolding num_chunks_def q_def by simp_all
qed

lemma num_chunks_last:
  assumes "0 < s" and "k < num_chunks n s"
  shows "k * s < n"
proof -
  have "Suc k \<le> num_chunks n s" using assms(2) by simp
  then have "Suc k * s \<le> num_chunks n s * s" by (rule mult_le_mono1)
  also have "\<dots> < n + s" using assms(1) by (rule num_chunks_bounds(2))
  finally have "k * s + s < n + s" by simp
  then show ?thesis by simp
qed


lemma batch_step_chunk:
  assumes "0 < s"
  shows "batch_step envs ids (int s) up d (int nb) st (int k) =
     (fst st @ process_orders_batch (envs k) (chunk s k ids) up False,
      snd st @ chunk_events s d ids nb k)"
proof -
  have c: "(int k < int nb - 1) = (k + 1 < nb)" by linarith
  show ?thesis
    unfolding batch_step_def Let_def py_slice_chunk[OF assms] c chunk_events_def by simp
qed

lemma batch_fold:
  assumes "0 < s"
  shows "foldl (batch_step envs ids (int s) up d (int nb)) (r0, t0) (map int [0..<m]) =
     (r0 @ concat (map (\<lambda>k. process_orders_batch (envs k) (chunk s k ids) up False) [0..<m]),
      t0 @ concat (map (chunk_events s d ids nb) [0..<m]))"
proof (induction m)
  case 0
  show ?case by simp
next
  case (Suc m)
  show ?case
    by (simp only: upt_Suc_append[OF le0] map_append foldl_append Suc.IH list.map foldl.simps
          batch_step_chunk[OF assms] fst_conv snd_conv concat_append concat.simps append_Nil2
          append_assoc)
qed

lemma batches_of_events:
  "batches_of (concat (map (chunk_events s d ids nb) ks)) = map (\<lambda>k. chunk s k ids) ks"
  by (induction ks) (simp_all add: batches_of_def chunk_events_def)

lemma delays_of_events:
  "delays_of (concat (map (chunk_events s d ids nb) [0..<m])) = replicate (min m (nb - 1)) d"
proof (induction m)
  case 0
  show ?case by (simp add: delays_of_def)
next
  case (Suc m)
  have app: "delays_of (xs @ ys) = delays_of xs @ delays_of ys" for xs ys :: "'a event list"
    by (simp add: delays_of_def)
  show ?case
  proof (cases "m + 1 < nb")
    case True
    then have "min (Suc m) (nb - 1) = Suc (min m (nb - 1))" by simp
    moreover have "delays_of (chunk_events s d ids nb m) = [d]"
      using True by (simp add: delays_of_def chunk_events_def)
    ultimately show ?thesis
      using Suc.IH by (simp add: app replicate_append_same)
  next
    case False
    then have "min (Suc m) (nb - 1) = min m (nb - 1)" by simp
    moreover have "delays_of (chunk_events s d ids nb m) = []"
      using False by (simp add: delays_of_def chunk_events_def)
    ultimately show ?thesis
      using Suc.IH by (simp add: app)
  qed
qed

lemma process_orders_in_batches_eq:
  assumes "0 < batch_size"
  shows "process_orders_in_batches envs ids batch_size up d =
     Inr (concat (map (\<lambda>k. process_orders_batch (envs k) (chunk (nat batch_size) k ids) up False)
                  [0..<num_chunks (length ids) (nat batch_size)]),
          concat (map (chunk_events (nat batch_size) d ids (num_chunks (length ids) (nat batch_size)))
                  [0..<num_chunks (length ids) (nat batch_size)]))"
proof -
  define s where "s = nat batch_size"
  have s: "0 < s" and bs: "batch_size = int s" using assms by (simp_all add: s_def)
  have tb: "(int (length ids) + int s - 1) div int s = int (num_chunks (length ids) s)"
    using s by (rule total_batches_nat)
  show ?thesis
    unfolding process_orders_in_batches_def Let_def bs tb
    using s by (simp add: batch_fold[OF s])
qed

text \<open>
  Claim C8. For every list of order ids, every chunk size \<open>batch_size > 0\<close> and every delay,
  \<open>process_orders_in_batches\<close> returns, and with \<open>n\<close> ids and chunk size \<open>s\<close> it runs
  \<open>nb\<close> batches, \<open>nb\<close> the quotient of \<open>n\<close> by \<open>s\<close> rounded up: batch \<open>k\<close> is made of the
  \<open>s\<close> ids from position \<open>k * s\<close> on (fewer in the last batch, never none), the batches put
  together are the input list, each batch but the last is followed by one sleep of the delay
  and the last by none, and the results are the results of the batch runner on the batches,
  put together in that order.
\<close>

theorem chunked_fetch_partition:
  assumes "0 < batch_size"
  shows "\<exists>results trace.
    process_orders_in_batches envs order_ids batch_size use_pool batch_delay = Inr (results, trace) \<and>
    (let s = nat batch_size; n = length order_ids; nb = (n + s - 1) div s in
       n \<le> nb * s \<and> nb * s < n + s \<and>
       trace = concat (map (\<lambda>k. RunBatch (take s (drop (k * s) order_ids)) #
                               (if k + 1 < nb then [Sleep batch_delay] else [])) [0..<nb]) \<and>
       batches_of trace = map (\<lambda>k. take s (drop (k * s) order_ids)) [0..<nb] \<and>
       concat (batches_of trace) = order_ids \<and>
       (\<forall>k<nb. length (batches_of trace ! k) = (if k + 1 < nb then s else n - k * s) \<and>
               0 < length (batches_of trace ! k) \<and> length (batches_of trace ! k) \<le> s) \<and>
       delays_of trace = replicate (nb - 1) batch_delay \<and>
       results = concat (map (\<lambda>k. process_orders_batch (envs k) (take s (drop (k * s) order_ids))
                                   use_pool False) [0..<nb]))"
proof -
  define s where "s = nat batch_size"
  define n where "n = length order_ids"
  define nb where "nb = (n + s - 1) div s"
  define trace where
    "trace = concat (map (chunk_events s batch_delay order_ids nb) [0..<nb])"
  define results where
    "results = concat (map (\<lambda>k. process_orders_batch (envs k) (chunk s k order_ids) use_pool False)
                  [0..<nb])"
  have s: "0 < s" using assms by (simp add: s_def)
  have nb: "nb = num_chunks n s" by (simp add: nb_def num_chunks_def)
  have run: "process_orders_in_batches envs order_ids batch_size use_pool batch_delay
      = Inr (results, trace)"
    unfolding results_def trace_def nb n_def s_def
    by (rule process_orders_in_batches_eq[OF assms])
  have b1: "n \<le> nb * s" and b2: "nb * s < n + s"
    unfolding nb using s by (rule num_chunks_bounds)+
  have tr: "trace = concat (map (\<lambda>k. RunBatch (take s (drop (k * s) order_ids)) #
                               (if k + 1 < nb then [Sleep batch_delay] else [])) [0..<nb])"
    unfolding trace_def chunk_events_def chunk_def ..
  have bo: "batches_of trace = map (\<lambda>k. take s (drop (k * s) order_ids)) [0..<nb]"
    unfolding trace_def batches_of_events chunk_def ..
  have cc: "concat (batches_of trace) = order_ids"
    unfolding trace_def batches_of_events concat_chunks_take using b1 by (simp add: n_def)
  have sz: "length (batches_of trace ! k) = (if k + 1 < nb then s else n - k * s) \<and>
            0 < length (batches_of trace ! k) \<and> length (batches_of trace ! k) \<le> s"
    if k: "k < nb" for k
  proof -
    have l: "length (batches_of trace ! k) = min s (n - k * s)"
      unfolding bo using k by (simp add: n_def min.commute)
    have lt: "k * s < n" using s k unfolding nb by (rule num_chunks_last)
    show ?thesis
    proof (cases "k + 1 < nb")
      case True
      then have "(k + 1) * s < n" using s unfolding nb by (intro num_chunks_last) auto
      then show ?thesis using l s True by simp
    next
      case False
      then have "nb = k + 1" using k by simp
      then have "n \<le> k * s + s" using b1 by simp
      then show ?thesis using l lt s False by simp
    qed
  qed
  have dl: "delays_of trace = replicate (nb - 1) batch_delay"
    unfolding trace_def delays_of_events by simp
  have rs: "results = concat (map (\<lambda>k. process_orders_batch (envs k)
              (take s (drop (k * s) order_ids)) use_pool False) [0..<nb])"
    unfolding results_def chunk_def ..
  show ?thesis
    unfolding Let_def s_def[symmetric] n_def[symmetric] nb_def[symmetric]
    using run b1 b2 tr bo cc sz dl rs by blast
qed

text \<open>Twenty-five ids in chunks of ten: batches of 10, 10 and 5 ids, and two delays.\<close>

theorem chunked_fetch_partition_witness:
  "\<exists>results trace.
     process_orders_in_batches (\<lambda>b i. \<lparr>semaphore_enter = Inr (), lock_enter = Inr (),
         get_order_by_id = Inr None, get_browser = Inr None\<rparr>)
       [[1], [2], [3], [4], [5], [6], [7], [8], [9], [10], [11], [12], [13], [14], [15], [16],
        [17], [18], [19], [20], [21], [22], [23], [24], [25]] 10 True (2::nat)
       = Inr (results, trace) \<and>
     map length (batches_of trace) = [10, 10, 5] \<and> delays_of trace = [2, 2]"
proof -
  have h: "(0::int) < 10" by simp
  have u: "[0..<3] = [0, 1, 2::nat]" by code_simp
  have r: "replicate 2 (2::nat) = [2, 2]" by code_simp
  show ?thesis
    using chunked_fetch_partition[OF h, of "\<lambda>b i. \<lparr>semaphore_enter = Inr (), lock_enter = Inr (),
         get_order_by_id = Inr None, get_browser = Inr None\<rparr>"
       "[[1], [2], [3], [4], [5], [6], [7], [8], [9], [10], [11], [12], [13], [14], [15], [16],
        [17], [18], [19], [20], [21], [22], [23], [24], [25]]" True "2::nat"]
    by (simp add: Let_def u r)
qed

section \<open>Properties of the status heuristic\<close>

lemma statusMap_phrase_length: "item \<in> set statusMap \<Longrightarrow> 2 \<le> length (item_text item)"
  by (auto simp: statusMap_def)



lemma find_filter_hd:
  "find P xs = (if filter P xs = [] then None else Some (hd (filter P xs)))"
  by (induction xs) auto

lemma find_matching:
  "find (\<lambda>item. js_includes text (item_text item)) statusMap =
     (if matching_items text = [] then None else Some (hd (matching_items text)))"
  unfolding matching_items_def by (rule find_filter_hd)

lemma matching_text_length:
  assumes "matching_items text \<noteq> []"
  shows "2 \<le> length text"
proof -
  from assms obtain item where i: "item \<in> set (matching_items text)"
    by (cases "matching_items text") auto
  then have "item \<in> set statusMap" and "sublist (item_text item) text"
    by (auto simp: matching_items_def js_includes_def)
  then show ?thesis
    using statusMap_phrase_length sublist_length_le by fastforce
qed

lemma scan_node_candidate:
  "scan_node s node = (case candidate node of None \<Rightarrow> s | Some c \<Rightarrow> keep_best s c)"
proof (cases "matching_items (js_trim (textContent node)) = []")
  case True
  then show ?thesis
    by (simp add: scan_node_def candidate_def find_matching Let_def)
next
  case False
  from matching_text_length[OF this] show ?thesis
    using False
    by (auto simp: scan_node_def candidate_def find_matching Let_def keep_best_def
             split: option.splits)
qed

lemma foldl_scan_candidates:
  "foldl scan_node s nodes = foldl keep_best s (List.map_filter candidate nodes)"
  by (induction nodes arbitrary: s)
     (auto simp: scan_node_candidate split: option.splits)

lemma candidate_score_nonneg: "candidate node = Some c \<Longrightarrow> 0 \<le> snd c"
  by (auto simp: candidate_def node_score_def Let_def split: if_splits)

lemma keep_best_fold:
  assumes "\<forall>c\<in>set cs. 0 \<le> snd c" and "cs \<noteq> []"
  shows "best_of cs (foldl keep_best \<lparr>bestMatch = None, bestScore = - 1\<rparr> cs)"
  using assms
proof (induction cs rule: rev_induct)
  case Nil
  then show ?case by simp
next
  case (snoc c cs)
  let ?s = "foldl keep_best \<lparr>bestMatch = None, bestScore = - 1\<rparr> cs"
  show ?case
  proof (cases "cs = []")
    case True
    then show ?thesis using snoc.prems by (simp add: keep_best_def best_of_def)
  next
    case False
    then have "best_of cs ?s" using snoc by simp
    then obtain i where i: "i < length cs" "bestMatch ?s = Some (cs ! i)"
       "bestScore ?s = snd (cs ! i)" "\<forall>j<length cs. snd (cs ! j) \<le> snd (cs ! i)"
       "\<forall>j<i. snd (cs ! j) < snd (cs ! i)"
      unfolding best_of_def by blast
    show ?thesis
    proof (cases "snd c > bestScore ?s")
      case True
      have "\<forall>j<length (cs @ [c]). snd ((cs @ [c]) ! j) \<le> snd c"
        using True i(3,4) by (auto simp: nth_append less_Suc_eq)
      moreover have "\<forall>j<length cs. snd ((cs @ [c]) ! j) < snd c"
        using True i(3,4) by (auto simp: nth_append)
      ultimately show ?thesis
        using True unfolding best_of_def
        by (intro exI[of _ "length cs"]) (simp add: keep_best_def)
    next
      case False
      have "\<forall>j<length (cs @ [c]). snd ((cs @ [c]) ! j) \<le> snd (cs ! i)"
        using False i(3,4) by (auto simp: nth_append less_Suc_eq)
      moreover have "\<forall>j<i. snd ((cs @ [c]) ! j) < snd (cs ! i)"
        using i(1,5) by (auto simp: nth_append)
      ultimately show ?thesis
        using False i(1,2,3) unfolding best_of_def
        by (intro exI[of _ i]) (simp add: keep_best_def nth_append)
    qed
  qed
qed

lemma status_script_best:
  "status_script doc =
     (if List.map_filter candidate (take maxNodes doc) = [] then None
      else bestMatch (foldl keep_best \<lparr>bestMatch = None, bestScore = - 1\<rparr>
             (List.map_filter candidate (take maxNodes doc))))"
  by (simp add: status_script_def foldl_scan_candidates)


lemmas cand_eval = candidate_def js_trim_def js_whitespace_def matching_items_def statusMap_def
  js_includes_def sublist_Cons_right node_score_def

lemma candidate_cancelled:
  "candidate \<lparr>textContent = [0x4E70, 0x5BB6, 0x53D6, 0x6D88, 0x4E86, 0x8BA2, 0x5355],
       parentElement = Some \<lparr>fontSize = 14, fontWeight = 400\<rparr>\<rparr> = Some (''cancelled'', 114)"
  by (simp add: cand_eval)




section \<open>Properties of the fetch session\<close>

lemma py_replace_char: "py_replace [c] [] s = filter (\<lambda>x. x \<noteq> c) s"
proof (induction s)
  case Nil
  show ?case by (simp add: py_replace.simps)
next
  case (Cons x xs)
  show ?case
    by (subst py_replace.simps) (simp add: Cons.IH)
qed

lemma amount_clean_eq:
  "py_strip (py_replace [0x24] [] (py_replace [0xFFE5] [] (py_replace [0xA5] [] text)))
     = stripped_amount text"
  unfolding stripped_amount_def py_replace_char
  by (simp add: conj_commute conj_left_commute cong: filter_cong)

lemmas float_eval = py_float_def c_strip_def c_isspace_def to_ascii_char_def parse_decimal_def
  parse_inf_or_nan_def split_sign_def is_ascii_digit_def digits_value_def ascii_lower_def
  ascii_def py_isspace_def py_strip_def stripped_amount_def

lemma falsy_not_valid: "\<not> truthy amount \<Longrightarrow> \<not> spec_amount_valid amount"
proof (cases amount)
  case PNone
  then show ?thesis by (simp add: spec_amount_valid_def float_eval)
next
  case (PBool b)
  assume "\<not> truthy amount"
  with PBool show ?thesis by (simp add: spec_amount_valid_def float_eval)
next
  case (PInt i)
  assume "\<not> truthy amount"
  with PInt show ?thesis
    by (simp add: spec_amount_valid_def float_eval str_int_def str_nat.simps)
next
  case (PStr s)
  assume "\<not> truthy amount"
  with PStr show ?thesis by (simp add: spec_amount_valid_def float_eval)
next
  case (PList xs)
  then show ?thesis by (simp add: spec_amount_valid_def)
next
  case (PDict kvs)
  then show ?thesis by (simp add: spec_amount_valid_def)
qed

lemma amount_valid_spec: "amount_valid amount = spec_amount_valid amount"
proof (cases "truthy amount")
  case True
  then show ?thesis
    by (simp add: amount_valid_def spec_amount_valid_def amount_clean_eq Let_def
             split: option.splits)
next
  case False
  then show ?thesis using falsy_not_valid by (simp add: amount_valid_def)
qed


lemma live_fetch_result:
  assumes "live_fetch env order_id use_pool = Some r"
  shows "\<exists>pg api_data. get_browser env = Inr (Some pg) \<and>
           session_api_data (page_api_responses pg) = Some api_data \<and>
           r = merged_result order_id api_data (parse_dom_content pg)"
  using assms
  by (auto simp: live_fetch_def Let_def split: if_splits sum.splits option.splits)

lemma merged_result_from_cache:
  "merged_result order_id api_data dom_data ''from_cache'' = Some (PBool False)"
  by (simp add: merged_result_def Let_def)

lemma cached_result_from_cache: "cached_result row ''from_cache'' = Some (PBool True)"
  by (simp add: cached_result_def)



lemma statusMap_status_names: "item \<in> set statusMap \<Longrightarrow> ascii (item_status item) \<in> set status_names"
  by (auto simp: statusMap_def status_names_def)

lemma candidate_status:
  assumes "candidate node = Some c"
  shows "ascii (fst c) \<in> set status_names"
proof -
  from assms have ne: "matching_items (js_trim (textContent node)) \<noteq> []"
    and c: "fst c = item_status (hd (matching_items (js_trim (textContent node))))"
    by (auto simp: candidate_def Let_def split: if_splits)
  from ne have "hd (matching_items (js_trim (textContent node))) \<in> set statusMap"
    using hd_in_set[OF ne] by (auto simp: matching_items_def)
  then show ?thesis unfolding c by (rule statusMap_status_names)
qed

lemma status_script_status:
  assumes "status_script doc = Some m"
  shows "ascii (fst m) \<in> set status_names"
proof -
  let ?cs = "List.map_filter candidate (take maxNodes doc)"
  from assms have ne: "?cs \<noteq> []" by (auto simp: status_script_best split: if_splits)
  have nonneg: "\<forall>c\<in>set ?cs. 0 \<le> snd c"
    by (auto simp: List.map_filter_def intro: candidate_score_nonneg)
  from keep_best_fold[OF nonneg ne] assms ne obtain i where "i < length ?cs" "m = ?cs ! i"
    unfolding best_of_def by (auto simp: status_script_best)
  then have "m \<in> set ?cs" by simp
  then obtain node where "candidate node = Some m"
    by (auto simp: List.map_filter_def)
  then show ?thesis by (rule candidate_status)
qed

lemma get_order_status_names: "get_order_status pg \<in> set status_names"
proof (cases "page_evaluate_status pg")
  case (Inl e)
  then show ?thesis by (simp add: get_order_status_def status_names_def)
next
  case (Inr doc)
  show ?thesis
  proof (cases "status_script doc")
    case None
    with Inr show ?thesis by (simp add: get_order_status_def status_names_def)
  next
    case (Some m)
    with Inr status_script_status[OF Some] show ?thesis by (simp add: get_order_status_def)
  qed
qed

lemma status_names_nonempty: "s \<in> set status_names \<Longrightarrow> s \<noteq> []"
  by (auto simp: status_names_def ascii_def)

lemma parse_dom_content_cases:
  "parse_dom_content pg = Map.empty \<or>
   (\<exists>q. parse_dom_content pg =
      [''quantity'' \<mapsto> PStr q, ''order_status_dom'' \<mapsto> PStr (get_order_status pg)])"
  by (auto simp: parse_dom_content_def split: sum.splits option.splits)

lemma parse_dom_content_status:
  "parse_dom_content pg ''order_status_dom'' = None \<or>
   parse_dom_content pg ''order_status_dom'' = Some (PStr (get_order_status pg))"
  using parse_dom_content_cases[of pg] by auto

lemma merged_result_fields:
  "merged_result order_id api_data (parse_dom_content pg) ''order_status'' =
     Some (case parse_dom_content pg ''order_status_dom'' of
             None \<Rightarrow> dict_get api_data ''order_status'' (PStr (ascii ''unknown''))
           | Some d \<Rightarrow> if d \<noteq> PStr (ascii ''unknown'') then d
                       else dict_get api_data ''order_status'' (PStr (ascii ''unknown'')))"
  "merged_result order_id api_data (parse_dom_content pg) ''api_status'' =
     Some (dict_get api_data ''order_status'' (PStr (ascii ''unknown'')))"
  "merged_result order_id api_data (parse_dom_content pg) ''dom_status'' =
     Some (case parse_dom_content pg ''order_status_dom'' of
             None \<Rightarrow> PStr (ascii ''not_detected'')
           | Some d \<Rightarrow> d)"
  using parse_dom_content_status[of pg] status_names_nonempty[OF get_order_status_names[of pg]]
  by (auto simp: merged_result_def Let_def dict_get_def)

lemma fetch_order_complete_result:
  assumes "fetch_order_complete env order_id use_pool force_refresh = Inr (Some r)"
  shows "(\<exists>row. get_order_by_id env = Inr (Some row) \<and> \<not> force_refresh \<and>
            spec_amount_valid (stored_amount row) \<and> r = cached_result row) \<or>
         live_fetch env order_id use_pool = Some r"
  using assms
  by (auto simp: fetch_order_complete_def fetch_order_complete_try_def Let_def
                 amount_valid_spec stored_amount_def
           split: sum.splits option.splits if_splits)

text \<open>
  Claim C2. In every freshly fetched record, \<open>order_status\<close> is the status the DOM scan
  stored when it stored one other than \<open>unknown\<close>, and the API status otherwise (the
  status the parser stored for the first intercepted body, \<open>unknown\<close> when it stored
  none). Whichever wins, \<open>api_status\<close> is the API status and \<open>dom_status\<close> is the status of
  the DOM scan, with \<open>not_detected\<close> in its place when the scan stored none.
\<close>

theorem status_fusion:
  assumes "fetch_order_complete env order_id use_pool force_refresh = Inr (Some r)"
    and "r ''from_cache'' = Some (PBool False)"
  shows "\<exists>pg api_data.
           get_browser env = Inr (Some pg) \<and>
           session_api_data (page_api_responses pg) = Some api_data \<and>
           (let api_status = dict_get api_data ''order_status'' (PStr (ascii ''unknown''));
                dom_status = parse_dom_content pg ''order_status_dom''
            in r ''order_status'' =
                 Some (case dom_status of
                         None \<Rightarrow> api_status
                       | Some d \<Rightarrow> if d \<noteq> PStr (ascii ''unknown'') then d else api_status) \<and>
               r ''api_status'' = Some api_status \<and>
               r ''dom_status'' =
                 Some (case dom_status of None \<Rightarrow> PStr (ascii ''not_detected'') | Some d \<Rightarrow> d))"
proof -
  from fetch_order_complete_result[OF assms(1)] assms(2)
  have "live_fetch env order_id use_pool = Some r"
    by (auto simp: cached_result_from_cache)
  from live_fetch_result[OF this] obtain pg api_data where
    "get_browser env = Inr (Some pg)"
    "session_api_data (page_api_responses pg) = Some api_data"
    "r = merged_result order_id api_data (parse_dom_content pg)"
    by blast
  then show ?thesis
    by (intro exI[of _ pg] exI[of _ api_data]) (simp add: Let_def merged_result_fields)
qed

lemma status_script_cancelled_doc: "status_script cancelled_doc = Some (''cancelled'', 114)"
  by (simp add: status_script_best maxNodes_def cancelled_doc_def candidate_cancelled
        keep_best_def)

lemma session_api_data_body:
  "session_api_data [api_body status] = Some [''order_status'' \<mapsto> PStr (resolve_status status)]"
  by (simp add: session_api_data_def api_body_def parse_api_response_def ascii_def)

lemma resolve_status_3: "resolve_status (PInt 3) = ascii ''shipped''"
  by (simp add: resolve_status_def STATUS_CODE_MAP_get_def STATUS_CODE_MAP_def str_int_def
        str_nat.simps ascii_def)

lemma live_fetch_page_showing:
  "live_fetch (env_with_page ((page_showing doc)\<lparr>page_api_responses := [api_body status]\<rparr>))
       order_id True =
     Some (merged_result order_id [''order_status'' \<mapsto> PStr (resolve_status status)]
        [''quantity'' \<mapsto> PStr (ascii ''1''),
         ''order_status_dom'' \<mapsto> PStr (case status_script doc of
              Some m \<Rightarrow> ascii (fst m) | None \<Rightarrow> ascii ''unknown'')])"
  by (simp add: live_fetch_def env_with_page_def page_showing_def session_api_data_body
        parse_dom_content_def get_order_status_def)

lemma fetch_env_with_page:
  "fetch_order_complete (env_with_page pg) order_id use_pool force_refresh =
     Inr (live_fetch (env_with_page pg) order_id use_pool)"
  by (simp add: fetch_order_complete_def fetch_order_complete_try_def env_with_page_def)

text \<open>
  The API reports code 3 (shipped) and the page shows the buyer's cancellation: the record
  says \<open>cancelled\<close> and keeps both signals.
\<close>

theorem status_fusion_witness:
  "fetch_order_complete
      (env_with_page ((page_showing cancelled_doc)\<lparr>page_api_responses := [api_body (PInt 3)]\<rparr>))
      (ascii ''A1'') True False
    = Inr (Some [''order_id'' \<mapsto> PStr (ascii ''A1''), ''from_cache'' \<mapsto> PBool False,
                 ''api_status'' \<mapsto> PStr (ascii ''shipped''),
                 ''dom_status'' \<mapsto> PStr (ascii ''cancelled''),
                 ''order_status'' \<mapsto> PStr (ascii ''cancelled''),
                 ''quantity'' \<mapsto> PStr (ascii ''1'')]) \<and>
   parse_dom_content ((page_showing cancelled_doc)\<lparr>page_api_responses := [api_body (PInt 3)]\<rparr>)
      ''order_status_dom'' = Some (PStr (ascii ''cancelled''))"
proof -
  let ?pg = "(page_showing cancelled_doc)\<lparr>page_api_responses := [api_body (PInt 3)]\<rparr>"
  let ?r = "[''order_id'' \<mapsto> PStr (ascii ''A1''), ''from_cache'' \<mapsto> PBool False,
                 ''api_status'' \<mapsto> PStr (ascii ''shipped''),
                 ''dom_status'' \<mapsto> PStr (ascii ''cancelled''),
                 ''order_status'' \<mapsto> PStr (ascii ''cancelled''),
                 ''quantity'' \<mapsto> PStr (ascii ''1'')]"
  have ne: "ascii ''cancelled'' \<noteq> ascii ''unknown''" "ascii ''cancelled'' \<noteq> []"
    by (simp_all add: ascii_def)
  have f: "fetch_order_complete (env_with_page ?pg) (ascii ''A1'') True False = Inr (Some ?r)"
    by (simp add: fetch_env_with_page live_fetch_page_showing
          status_script_cancelled_doc resolve_status_3 merged_result_def dict_get_def Let_def ne)
  have c: "?r ''from_cache'' = Some (PBool False)" by simp
  have d: "parse_dom_content ?pg ''order_status_dom'' = Some (PStr (ascii ''cancelled''))"
    by (simp add: parse_dom_content_def page_showing_def get_order_status_def
          status_script_cancelled_doc)
  from status_fusion[OF f c] f d show ?thesis by simp
qed

lemma priced_row_valid: "spec_amount_valid (stored_amount priced_row)"
  by (simp add: priced_row_def stored_amount_def dict_get_def spec_amount_valid_def float_eval)

lemma fetch_env_with_row:
  "spec_amount_valid (stored_amount row) \<Longrightarrow>
   fetch_order_complete (env_with_row row) order_id use_pool False = Inr (Some (cached_result row))"
  by (simp add: fetch_order_complete_def fetch_order_complete_try_def env_with_row_def
        amount_valid_spec stored_amount_def)

lemma live_fetch_showing:
  assumes "get_browser env = Inr (Some ((page_showing doc)\<lparr>page_api_responses := bodies\<rparr>))"
  shows "live_fetch env order_id True =
     map_option (\<lambda>api_data. merged_result order_id api_data
        [''quantity'' \<mapsto> PStr (ascii ''1''),
         ''order_status_dom'' \<mapsto> PStr (case status_script doc of
              Some m \<Rightarrow> ascii (fst m) | None \<Rightarrow> ascii ''unknown'')])
       (session_api_data bodies)"
  by (simp add: live_fetch_def assms page_showing_def parse_dom_content_def get_order_status_def
        split: option.splits)

text \<open>
  Claim C10. A record that a session returns comes from the cache path or from the live
  fetch. From the cache path it is the reshaped stored record: \<open>from_cache\<close> is true and
  there is no key \<open>api_status\<close> and no key \<open>dom_status\<close>. From the live fetch
  \<open>from_cache\<close> is false and both keys are there, \<open>dom_status\<close> being \<open>not_detected\<close>
  when the DOM scan stored no status.
\<close>

theorem provenance_fields:
  assumes "fetch_order_complete env order_id use_pool force_refresh = Inr (Some r)"
  shows "(\<exists>row. get_order_by_id env = Inr (Some row) \<and> r = cached_result row \<and>
            r ''from_cache'' = Some (PBool True) \<and>
            r ''api_status'' = None \<and> r ''dom_status'' = None) \<or>
         (\<exists>pg. get_browser env = Inr (Some pg) \<and>
            live_fetch env order_id use_pool = Some r \<and>
            r ''from_cache'' = Some (PBool False) \<and>
            (\<exists>a. r ''api_status'' = Some a) \<and>
            r ''dom_status'' =
              Some (case parse_dom_content pg ''order_status_dom'' of
                      None \<Rightarrow> PStr (ascii ''not_detected'')
                    | Some d \<Rightarrow> d))"
proof -
  from fetch_order_complete_result[OF assms] consider
    (cache) row where "get_order_by_id env = Inr (Some row)" "r = cached_result row"
  | (live) "live_fetch env order_id use_pool = Some r"
    by blast
  then show ?thesis
  proof cases
    case cache
    then show ?thesis by (simp add: cached_result_def)
  next
    case live
    from live_fetch_result[OF live] obtain pg api_data where
      "get_browser env = Inr (Some pg)"
      "r = merged_result order_id api_data (parse_dom_content pg)"
      by blast
    then show ?thesis
      using live by (simp add: merged_result_fields merged_result_from_cache)
  qed
qed

text \<open>
  A session served from the store, and a live session whose DOM scan stops at its first
  query.
\<close>

theorem provenance_fields_witness:
  "fetch_order_complete (env_with_row priced_row) (ascii ''A1'') True False
     = Inr (Some (cached_result priced_row)) \<and>
   cached_result priced_row ''from_cache'' = Some (PBool True) \<and>
   cached_result priced_row ''api_status'' = None \<and>
   cached_result priced_row ''dom_status'' = None \<and>
   fetch_order_complete
      (env_with_page ((page_showing [])\<lparr>page_query_amount := Inl (Raised [])\<rparr>))
      (ascii ''A1'') True False
     = Inr (Some [''order_id'' \<mapsto> PStr (ascii ''A1''), ''from_cache'' \<mapsto> PBool False,
                  ''api_status'' \<mapsto> PStr (ascii ''unknown''),
                  ''dom_status'' \<mapsto> PStr (ascii ''not_detected''),
                  ''order_status'' \<mapsto> PStr (ascii ''unknown''),
                  ''quantity'' \<mapsto> PStr (ascii ''1'')])"
proof -
  let ?pg = "(page_showing [])\<lparr>page_query_amount := Inl (Raised [])\<rparr>"
  let ?r = "[''order_id'' \<mapsto> PStr (ascii ''A1''), ''from_cache'' \<mapsto> PBool False,
                  ''api_status'' \<mapsto> PStr (ascii ''unknown''),
                  ''dom_status'' \<mapsto> PStr (ascii ''not_detected''),
                  ''order_status'' \<mapsto> PStr (ascii ''unknown''),
                  ''quantity'' \<mapsto> PStr (ascii ''1'')]"
  have f1: "fetch_order_complete (env_with_row priced_row) (ascii ''A1'') True False
     = Inr (Some (cached_result priced_row))"
    using priced_row_valid by (rule fetch_env_with_row)
  have "live_fetch (env_with_page ?pg) (ascii ''A1'') True = Some ?r"
    by (simp add: live_fetch_def env_with_page_def page_showing_def session_api_data_def
          parse_dom_content_def merged_result_def dict_get_def Let_def)
  then have f2: "fetch_order_complete (env_with_page ?pg) (ascii ''A1'') True False
      = Inr (Some ?r)"
    by (simp only: fetch_env_with_page)
  from provenance_fields[OF f1] provenance_fields[OF f2] f1 f2 show ?thesis
    by (auto simp: cached_result_def)
qed

text \<open>
  Claim C6 says that a session whose store lookup raises goes on to a live fetch and returns
  its record. Here the lookup raises: the session returns \<open>None\<close>, although the live fetch
  with the same collaborators returns a record.
\<close>

theorem store_error_no_live_fetch_counterexample:
  "fetch_order_complete env_store_down (ascii ''A1'') True False = Inr None \<and>
   live_fetch env_store_down (ascii ''A1'') True
     = Some [''order_id'' \<mapsto> PStr (ascii ''A1''), ''from_cache'' \<mapsto> PBool False,
             ''api_status'' \<mapsto> PStr (ascii ''unknown''),
             ''dom_status'' \<mapsto> PStr (ascii ''cancelled''),
             ''order_status'' \<mapsto> PStr (ascii ''cancelled''),
             ''quantity'' \<mapsto> PStr (ascii ''1'')]"
proof -
  have ne: "ascii ''cancelled'' \<noteq> ascii ''unknown''" "ascii ''cancelled'' \<noteq> []"
    by (simp_all add: ascii_def)
  have g: "get_browser env_store_down
      = Inr (Some ((page_showing cancelled_doc)\<lparr>page_api_responses := []\<rparr>))"
    by (simp add: env_store_down_def env_with_page_def page_showing_def)
  have "fetch_order_complete env_store_down (ascii ''A1'') True False = Inr None"
    by (simp add: fetch_order_complete_def fetch_order_complete_try_def env_store_down_def
          env_with_page_def)
  moreover have "live_fetch env_store_down (ascii ''A1'') True
     = Some [''order_id'' \<mapsto> PStr (ascii ''A1''), ''from_cache'' \<mapsto> PBool False,
             ''api_status'' \<mapsto> PStr (ascii ''unknown''),
             ''dom_status'' \<mapsto> PStr (ascii ''cancelled''),
             ''order_status'' \<mapsto> PStr (ascii ''cancelled''),
             ''quantity'' \<mapsto> PStr (ascii ''1'')]"
    by (simp add: live_fetch_showing[OF g] session_api_data_def status_script_cancelled_doc
          merged_result_def dict_get_def Let_def ne)
  ultimately show ?thesis by simp
qed

text \<open>
  Claim C6, amended. When the store lookup raises during a session, the session fails: it
  returns \<open>None\<close> and makes no live fetch.
\<close>

theorem store_error_fails_session:
  assumes "lock_enter env = Inr u" and "get_order_by_id env = Inl e"
  shows "fetch_order_complete env order_id use_pool force_refresh = Inr None"
  using assms by (simp add: fetch_order_complete_def fetch_order_complete_try_def)

text \<open>
  The session of the example above.
\<close>

theorem store_error_fails_session_witness:
  "lock_enter env_store_down = Inr () \<and>
   get_order_by_id env_store_down = Inl (Raised (ascii ''database is locked'')) \<and>
   fetch_order_complete env_store_down (ascii ''A1'') True False = Inr None"
proof -
  have l: "lock_enter env_store_down = Inr ()"
    by (simp add: env_store_down_def env_with_page_def)
  have g: "get_order_by_id env_store_down = Inl (Raised (ascii ''database is locked''))"
    by (simp add: env_store_down_def)
  from store_error_fails_session[OF l g] l g show ?thesis by simp
qed

text \<open>
  Claim C7 at a stored row with a valid amount and no quantity: the session returns the
  reshaped row, whose \<open>quantity\<close> is the empty string, not \<open>1\<close>.
\<close>

theorem cache_hit_quantity_empty:
  "fetch_order_complete (env_with_row priced_row) (ascii ''A1'') True False
     = Inr (Some (cached_result priced_row)) \<and>
   stored_fields priced_row ''quantity'' = None \<and>
   cached_result priced_row ''quantity'' = Some (PStr [])"
  using fetch_env_with_row[OF priced_row_valid]
  by (simp add: cached_result_def priced_row_def dict_get_def)

text \<open>
  In a freshly fetched record the quantity is a string, and it is \<open>1\<close> when the page has
  fewer than two sku elements or the query for them raises.
\<close>

lemma live_quantity_string:
  assumes "live_fetch env order_id use_pool = Some r"
  shows "\<exists>q. r ''quantity'' = Some (PStr q)"
proof -
  from live_fetch_result[OF assms] obtain pg api_data where
    r: "r = merged_result order_id api_data (parse_dom_content pg)" by blast
  from parse_dom_content_cases[of pg] show ?thesis unfolding r
    by (auto simp: merged_result_def Let_def dict_get_def)
qed

lemma live_quantity_default:
  assumes "live_fetch env order_id use_pool = Some r"
    and "get_browser env = Inr (Some pg)"
    and "case page_query_sku pg of Inl e \<Rightarrow> True | Inr els \<Rightarrow> length els < 2"
  shows "r ''quantity'' = Some (PStr (ascii ''1''))"
proof -
  from live_fetch_result[OF assms(1)] assms(2) obtain api_data where
    r: "r = merged_result order_id api_data (parse_dom_content pg)" by auto
  have "parse_dom_content pg ''quantity'' = None \<or>
        parse_dom_content pg ''quantity'' = Some (PStr (ascii ''1''))"
    using assms(3)
    by (auto simp: parse_dom_content_def split: sum.splits option.splits)
  then show ?thesis unfolding r
    by (auto simp: merged_result_def Let_def dict_get_def)
qed

lemma STATUS_CODE_MAP_values:
  "STATUS_CODE_MAP_get k (ascii ''unknown'') \<in> set status_names"
proof (cases "map_of STATUS_CODE_MAP k")
  case None
  then show ?thesis by (simp add: STATUS_CODE_MAP_get_def status_names_def)
next
  case (Some v)
  then have "(k, v) \<in> set STATUS_CODE_MAP" by (rule map_of_SomeD)
  then have "v \<in> set status_names"
    by (auto simp: STATUS_CODE_MAP_def status_names_def)
  with Some show ?thesis by (simp add: STATUS_CODE_MAP_get_def)
qed

lemma unknown_status_name: "ascii ''unknown'' \<in> set status_names"
  by (simp add: status_names_def)

lemma resolve_status_cases:
  "resolve_status code \<in> set status_names \<or>
   (\<exists>s. code = PStr s \<and> \<not> py_isdigit s \<and> s \<notin> set status_names \<and> resolve_status code = s)"
  by (cases code) (auto simp: resolve_status_def STATUS_CODE_MAP_values unknown_status_name
        split: option.splits)

lemma status_names_not_digits: "s \<in> set status_names \<Longrightarrow> \<not> py_isdigit s"
  by (auto simp: status_names_def py_isdigit_def unicode_isdigit_def unicode_decimal_def
        nd_bases_def digit_ranges_def ascii_def)

lemma resolve_status_unmapped:
  assumes "py_str code = Some text" and "\<forall>s. code = PStr s \<longrightarrow> py_isdigit s"
    and "map_of STATUS_CODE_MAP text = None"
  shows "resolve_status code = ascii ''unknown''"
proof (cases code)
  case (PStr s)
  with assms have "py_isdigit s" "text = s" by auto
  then have "s \<notin> set status_names" using status_names_not_digits by blast
  with PStr assms \<open>py_isdigit s\<close> \<open>text = s\<close> show ?thesis
    by (simp add: resolve_status_def STATUS_CODE_MAP_get_def)
qed (use assms in \<open>auto simp: resolve_status_def STATUS_CODE_MAP_get_def\<close>)

lemma session_api_data_status:
  assumes "session_api_data bodies = Some api_data"
  shows "api_data ''order_status'' = None \<or>
         (\<exists>body rest data code. bodies = body # rest \<and>
            py_get body (ascii ''data'') (PDict []) = Some data \<and>
            py_get data (ascii ''status'') (PStr (ascii ''unknown'')) = Some code \<and>
            api_data ''order_status'' = Some (PStr (resolve_status code)))"
  using assms
  by (auto simp: session_api_data_def log_api_failure_def parse_api_response_def
           split: list.splits option.splits if_splits bool.splits)

lemma resolve_status_raw: "resolve_status (PStr (ascii ''TRADE_CLOSED'')) = ascii ''TRADE_CLOSED''"
  by (simp add: resolve_status_def status_names_def py_isdigit_def unicode_isdigit_def
        unicode_decimal_def nd_bases_def digit_ranges_def ascii_def)

lemma raw_status_no_name: "ascii ''TRADE_CLOSED'' \<notin> set status_names"
  by (simp add: status_names_def ascii_def)

lemma fetch_env_raw_status:
  "fetch_order_complete env_raw_status (ascii ''A1'') True False
     = Inr (Some [''order_id'' \<mapsto> PStr (ascii ''A1''), ''from_cache'' \<mapsto> PBool False,
                  ''api_status'' \<mapsto> PStr (ascii ''TRADE_CLOSED''),
                  ''dom_status'' \<mapsto> PStr (ascii ''unknown''),
                  ''order_status'' \<mapsto> PStr (ascii ''TRADE_CLOSED''),
                  ''quantity'' \<mapsto> PStr (ascii ''1'')])"
proof -
  have ne: "ascii ''unknown'' \<noteq> []" by (simp add: ascii_def)
  have s: "status_script [] = None" by (simp add: status_script_def)
  show ?thesis
    unfolding env_raw_status_def fetch_env_with_page
    by (simp add: live_fetch_page_showing s resolve_status_raw merged_result_def dict_get_def
          Let_def ne)
qed

text \<open>
  Claim C5 says that \<open>order_status\<close> of every record is one of the seven status names.
  Here the provider sends a status string that is neither a status name nor a number, and the
  DOM scan finds nothing: the record carries the provider's string.
\<close>

theorem order_status_enum_counterexample:
  "fetch_order_complete env_raw_status (ascii ''A1'') True False
     = Inr (Some [''order_id'' \<mapsto> PStr (ascii ''A1''), ''from_cache'' \<mapsto> PBool False,
                  ''api_status'' \<mapsto> PStr (ascii ''TRADE_CLOSED''),
                  ''dom_status'' \<mapsto> PStr (ascii ''unknown''),
                  ''order_status'' \<mapsto> PStr (ascii ''TRADE_CLOSED''),
                  ''quantity'' \<mapsto> PStr (ascii ''1'')]) \<and>
   ascii ''TRADE_CLOSED'' \<notin> set status_names"
  using fetch_env_raw_status raw_status_no_name by simp

text \<open>
  Claim C5, amended. A record served from the store carries the stored \<open>order_status\<close> as
  it is, \<open>unknown\<close> when the row has none. In a freshly fetched record \<open>order_status\<close> is
  one of the seven status names, or the status string of the first intercepted body as the
  provider sent it, which is then not made of digits. A provider status that is not a string,
  or is a string of digits, always resolves to a status name, and to \<open>unknown\<close> when the
  static table does not map it.
\<close>

theorem order_status_values:
  assumes "fetch_order_complete env order_id use_pool force_refresh = Inr (Some r)"
  shows "((\<exists>row. get_order_by_id env = Inr (Some row) \<and>
             r ''from_cache'' = Some (PBool True) \<and>
             r ''order_status'' =
               Some (dict_get (stored_fields row) ''order_status'' (PStr (ascii ''unknown'')))) \<or>
          (r ''from_cache'' = Some (PBool False) \<and>
           (\<exists>s. r ''order_status'' = Some (PStr s) \<and>
              (s \<in> set status_names \<or>
               (\<not> py_isdigit s \<and>
                (\<exists>pg body rest data.
                   get_browser env = Inr (Some pg) \<and>
                   page_api_responses pg = body # rest \<and>
                   py_get body (ascii ''data'') (PDict []) = Some data \<and>
                   py_get data (ascii ''status'') (PStr (ascii ''unknown'')) = Some (PStr s))))))) \<and>
         (\<forall>code. (\<forall>s. code = PStr s \<longrightarrow> py_isdigit s) \<longrightarrow>
            resolve_status code \<in> set status_names) \<and>
         (\<forall>code text. py_str code = Some text \<and> (\<forall>s. code = PStr s \<longrightarrow> py_isdigit s) \<and>
            map_of STATUS_CODE_MAP text = None \<longrightarrow> resolve_status code = ascii ''unknown'')"
proof -
  have first: "(\<exists>row. get_order_by_id env = Inr (Some row) \<and>
             r ''from_cache'' = Some (PBool True) \<and>
             r ''order_status'' =
               Some (dict_get (stored_fields row) ''order_status'' (PStr (ascii ''unknown'')))) \<or>
          (r ''from_cache'' = Some (PBool False) \<and>
           (\<exists>s. r ''order_status'' = Some (PStr s) \<and>
              (s \<in> set status_names \<or>
               (\<not> py_isdigit s \<and>
                (\<exists>pg body rest data.
                   get_browser env = Inr (Some pg) \<and>
                   page_api_responses pg = body # rest \<and>
                   py_get body (ascii ''data'') (PDict []) = Some data \<and>
                   py_get data (ascii ''status'') (PStr (ascii ''unknown'')) = Some (PStr s))))))"
  proof -
    from fetch_order_complete_result[OF assms] consider
      (cache) row where "get_order_by_id env = Inr (Some row)" "r = cached_result row"
    | (live) "live_fetch env order_id use_pool = Some r"
      by blast
    then show ?thesis
    proof cases
      case cache
      then show ?thesis by (simp add: cached_result_def)
    next
      case live
      from live_fetch_result[OF live] obtain pg api_data where
        pg: "get_browser env = Inr (Some pg)"
        and api: "session_api_data (page_api_responses pg) = Some api_data"
        and r: "r = merged_result order_id api_data (parse_dom_content pg)"
        by blast
      let ?api = "dict_get api_data ''order_status'' (PStr (ascii ''unknown''))"
      have fc: "r ''from_cache'' = Some (PBool False)"
        unfolding r by (rule merged_result_from_cache)
      have os: "r ''order_status'' = Some (PStr (get_order_status pg)) \<or>
                r ''order_status'' = Some ?api"
        unfolding r merged_result_fields using parse_dom_content_status[of pg]
        by (auto split: option.splits)
      have api_cases: "?api = PStr (ascii ''unknown'') \<or>
          (\<exists>body rest data code. page_api_responses pg = body # rest \<and>
            py_get body (ascii ''data'') (PDict []) = Some data \<and>
            py_get data (ascii ''status'') (PStr (ascii ''unknown'')) = Some code \<and>
            ?api = PStr (resolve_status code))"
        using session_api_data_status[OF api] by (auto simp: dict_get_def)
      from os show ?thesis
      proof
        assume "r ''order_status'' = Some (PStr (get_order_status pg))"
        then show ?thesis using fc get_order_status_names by blast
      next
        assume a: "r ''order_status'' = Some ?api"
        from api_cases show ?thesis
        proof
          assume "?api = PStr (ascii ''unknown'')"
          then show ?thesis using a fc unknown_status_name by auto
        next
          assume "\<exists>body rest data code. page_api_responses pg = body # rest \<and>
            py_get body (ascii ''data'') (PDict []) = Some data \<and>
            py_get data (ascii ''status'') (PStr (ascii ''unknown'')) = Some code \<and>
            ?api = PStr (resolve_status code)"
          then obtain body rest data code where
            b: "page_api_responses pg = body # rest"
               "py_get body (ascii ''data'') (PDict []) = Some data"
               "py_get data (ascii ''status'') (PStr (ascii ''unknown'')) = Some code"
               "?api = PStr (resolve_status code)"
            by blast
          from resolve_status_cases[of code] show ?thesis
          proof
            assume "resolve_status code \<in> set status_names"
            then show ?thesis using a b(4) fc by auto
          next
            assume "\<exists>s. code = PStr s \<and> \<not> py_isdigit s \<and> s \<notin> set status_names \<and>
                      resolve_status code = s"
            then obtain s where "code = PStr s" "\<not> py_isdigit s" "resolve_status code = s"
              by blast
            then show ?thesis using a b fc pg by auto
          qed
        qed
      qed
    qed
  qed
  have second: "\<forall>code. (\<forall>s. code = PStr s \<longrightarrow> py_isdigit s) \<longrightarrow>
            resolve_status code \<in> set status_names"
    using resolve_status_cases by blast
  have third: "\<forall>code text. py_str code = Some text \<and> (\<forall>s. code = PStr s \<longrightarrow> py_isdigit s) \<and>
            map_of STATUS_CODE_MAP text = None \<longrightarrow> resolve_status code = ascii ''unknown''"
    using resolve_status_unmapped by blast
  from first second third show ?thesis by blast
qed

text \<open>
  The session of the example above, and two codes the table does not map: the number 5 and
  the string 13.
\<close>

theorem order_status_values_witness:
  "fetch_order_complete env_raw_status (ascii ''A1'') True False
     = Inr (Some [''order_id'' \<mapsto> PStr (ascii ''A1''), ''from_cache'' \<mapsto> PBool False,
                  ''api_status'' \<mapsto> PStr (ascii ''TRADE_CLOSED''),
                  ''dom_status'' \<mapsto> PStr (ascii ''unknown''),
                  ''order_status'' \<mapsto> PStr (ascii ''TRADE_CLOSED''),
                  ''quantity'' \<mapsto> PStr (ascii ''1'')]) \<and>
   \<not> py_isdigit (ascii ''TRADE_CLOSED'') \<and>
   resolve_status (PInt 5) = ascii ''unknown'' \<and>
   resolve_status (PStr (ascii ''13'')) = ascii ''unknown''"
proof -
  have d: "py_isdigit (ascii ''13'')"
    by (simp add: py_isdigit_def unicode_isdigit_def unicode_decimal_def nd_bases_def ascii_def)
  have m5: "py_str (PInt 5) = Some (ascii ''5'') \<and> (\<forall>s. PInt 5 = PStr s \<longrightarrow> py_isdigit s) \<and>
            map_of STATUS_CODE_MAP (ascii ''5'') = None"
    by (simp add: str_int_def str_nat.simps STATUS_CODE_MAP_def ascii_def)
  have m13: "py_str (PStr (ascii ''13'')) = Some (ascii ''13'') \<and>
            (\<forall>s. PStr (ascii ''13'') = PStr s \<longrightarrow> py_isdigit s) \<and>
            map_of STATUS_CODE_MAP (ascii ''13'') = None"
    using d by (simp add: STATUS_CODE_MAP_def) (simp add: ascii_def)
  have nd: "\<not> py_isdigit (ascii ''TRADE_CLOSED'')"
    by (simp add: py_isdigit_def unicode_isdigit_def unicode_decimal_def nd_bases_def
          digit_ranges_def ascii_def)
  from order_status_values[OF fetch_env_raw_status] m5 m13 nd fetch_env_raw_status
  show ?thesis by blast
qed

section \<open>Properties of the batch runners\<close>

lemma process_orders_batch_nth:
  assumes "i < length order_ids"
  shows "process_orders_batch envs order_ids use_pool force_refresh ! i
           = entry_of (envs i) (order_ids ! i) use_pool force_refresh"
  using assms
  by (simp add: process_orders_batch_def Let_def nth_enumerate_eq process_single_order_def
        entry_of_def split: sum.splits option.splits)

lemma process_orders_batch_length:
  "length (process_orders_batch envs order_ids use_pool force_refresh) = length order_ids"
  by (simp add: process_orders_batch_def Let_def)

lemma success_no_error:
  assumes "fetch_order_complete env order_id use_pool force_refresh = Inr (Some r)"
  shows "r ''error'' = None"
proof -
  from fetch_order_complete_result[OF assms] show ?thesis
  proof
    assume "\<exists>row. get_order_by_id env = Inr (Some row) \<and> \<not> force_refresh \<and>
            spec_amount_valid (stored_amount row) \<and> r = cached_result row"
    then show ?thesis by (auto simp: cached_result_def)
  next
    assume "live_fetch env order_id use_pool = Some r"
    from live_fetch_result[OF this] show ?thesis
      by (auto simp: merged_result_def Let_def)
  qed
qed

text \<open>
  Claim C3. For every list of order ids the batch runner returns a list of the same length,
  and the entry at each position is about the order id at that position: the record of its
  session when the session returns one (a record has no \<open>error\<close> key), and otherwise a
  failure entry with that order id and an error text, whether the session returns nothing or
  an exception leaves it or leaves the task. The entry at a position depends on the
  collaborators of that position only, so no session changes or removes the entry of another.
\<close>

theorem batch_one_entry_per_order:
  "length (process_orders_batch envs order_ids use_pool force_refresh) = length order_ids \<and>
   (\<forall>i<length order_ids.
      let entry = process_orders_batch envs order_ids use_pool force_refresh ! i;
          order_id = order_ids ! i
      in (\<forall>e. semaphore_enter (envs i) = Inl e \<longrightarrow> entry = failure_entry order_id (exn_str e)) \<and>
         (\<forall>u e. semaphore_enter (envs i) = Inr u \<and>
                 fetch_order_complete (envs i) order_id use_pool force_refresh = Inl e \<longrightarrow>
                 entry = failure_entry order_id (exn_str e)) \<and>
         (\<forall>u. semaphore_enter (envs i) = Inr u \<and>
               fetch_order_complete (envs i) order_id use_pool force_refresh = Inr None \<longrightarrow>
               entry = failure_entry order_id fetch_failed_text) \<and>
         (\<forall>u r. semaphore_enter (envs i) = Inr u \<and>
                 fetch_order_complete (envs i) order_id use_pool force_refresh = Inr (Some r) \<longrightarrow>
                 entry = r \<and> r ''error'' = None) \<and>
         (\<forall>envs'. envs' i = envs i \<longrightarrow>
            process_orders_batch envs' order_ids use_pool force_refresh ! i = entry)) \<and>
   (\<forall>order_id msg. failure_entry order_id msg ''order_id'' = Some (PStr order_id) \<and>
        failure_entry order_id msg ''error'' = Some (PStr msg) \<and>
        failure_entry order_id msg ''success'' = Some (PBool False))"
proof -
  have "\<forall>i<length order_ids.
      let entry = process_orders_batch envs order_ids use_pool force_refresh ! i;
          order_id = order_ids ! i
      in (\<forall>e. semaphore_enter (envs i) = Inl e \<longrightarrow> entry = failure_entry order_id (exn_str e)) \<and>
         (\<forall>u e. semaphore_enter (envs i) = Inr u \<and>
                 fetch_order_complete (envs i) order_id use_pool force_refresh = Inl e \<longrightarrow>
                 entry = failure_entry order_id (exn_str e)) \<and>
         (\<forall>u. semaphore_enter (envs i) = Inr u \<and>
               fetch_order_complete (envs i) order_id use_pool force_refresh = Inr None \<longrightarrow>
               entry = failure_entry order_id fetch_failed_text) \<and>
         (\<forall>u r. semaphore_enter (envs i) = Inr u \<and>
                 fetch_order_complete (envs i) order_id use_pool force_refresh = Inr (Some r) \<longrightarrow>
                 entry = r \<and> r ''error'' = None) \<and>
         (\<forall>envs'. envs' i = envs i \<longrightarrow>
            process_orders_batch envs' order_ids use_pool force_refresh ! i = entry)"
  proof (intro allI impI)
    fix i assume i: "i < length order_ids"
    show "let entry = process_orders_batch envs order_ids use_pool force_refresh ! i;
          order_id = order_ids ! i
      in (\<forall>e. semaphore_enter (envs i) = Inl e \<longrightarrow> entry = failure_entry order_id (exn_str e)) \<and>
         (\<forall>u e. semaphore_enter (envs i) = Inr u \<and>
                 fetch_order_complete (envs i) order_id use_pool force_refresh = Inl e \<longrightarrow>
                 entry = failure_entry order_id (exn_str e)) \<and>
         (\<forall>u. semaphore_enter (envs i) = Inr u \<and>
               fetch_order_complete (envs i) order_id use_pool force_refresh = Inr None \<longrightarrow>
               entry = failure_entry order_id fetch_failed_text) \<and>
         (\<forall>u r. semaphore_enter (envs i) = Inr u \<and>
                 fetch_order_complete (envs i) order_id use_pool force_refresh = Inr (Some r) \<longrightarrow>
                 entry = r \<and> r ''error'' = None) \<and>
         (\<forall>envs'. envs' i = envs i \<longrightarrow>
            process_orders_batch envs' order_ids use_pool force_refresh ! i = entry)"
      unfolding Let_def process_orders_batch_nth[OF i]
      by (auto simp: entry_of_def success_no_error)
  qed
  then show ?thesis
    by (simp add: process_orders_batch_length failure_entry_def)
qed

lemma fetch_cancelled_page:
  "fetch_order_complete (env_with_page (page_showing cancelled_doc)) order_id True force_refresh
     = Inr (Some (cancelled_record order_id))"
proof -
  have ne: "ascii ''cancelled'' \<noteq> ascii ''unknown''" "ascii ''cancelled'' \<noteq> []"
    by (simp_all add: ascii_def)
  have g: "get_browser (env_with_page (page_showing cancelled_doc))
      = Inr (Some ((page_showing cancelled_doc)\<lparr>page_api_responses := []\<rparr>))"
    by (simp add: env_with_page_def page_showing_def)
  show ?thesis
    unfolding fetch_env_with_page
    by (simp add: live_fetch_showing[OF g] session_api_data_def status_script_cancelled_doc
          merged_result_def dict_get_def Let_def ne cancelled_record_def)
qed

lemma fetch_timeout_page:
  "fetch_order_complete (env_with_page timeout_page) order_id True force_refresh = Inr None"
  unfolding fetch_env_with_page
  by (simp add: live_fetch_def env_with_page_def timeout_page_def page_showing_def)

text \<open>
  A batch of A, B and C in which the navigation of B raises: three entries, the records of A
  and C and a failure entry for B.
\<close>

theorem batch_one_entry_per_order_witness:
  "length (process_orders_batch example_batch_envs [ascii ''A'', ascii ''B'', ascii ''C'']
             True False) = 3 \<and>
   process_orders_batch example_batch_envs [ascii ''A'', ascii ''B'', ascii ''C''] True False ! 0
     = cancelled_record (ascii ''A'') \<and>
   process_orders_batch example_batch_envs [ascii ''A'', ascii ''B'', ascii ''C''] True False ! 1
     = failure_entry (ascii ''B'') fetch_failed_text \<and>
   process_orders_batch example_batch_envs [ascii ''A'', ascii ''B'', ascii ''C''] True False ! 2
     = cancelled_record (ascii ''C'') \<and>
   failure_entry (ascii ''B'') fetch_failed_text ''order_id'' = Some (PStr (ascii ''B'')) \<and>
   failure_entry (ascii ''B'') fetch_failed_text ''error'' = Some (PStr fetch_failed_text) \<and>
   cancelled_record (ascii ''A'') ''error'' = None"
proof -
  let ?ids = "[ascii ''A'', ascii ''B'', ascii ''C'']"
  note t = batch_one_entry_per_order[of example_batch_envs ?ids True False]
  have sem: "semaphore_enter (example_batch_envs i) = Inr ()" for i
    by (simp add: example_batch_envs_def env_with_page_def)
  have f0: "fetch_order_complete (example_batch_envs 0) (?ids ! 0) True False
      = Inr (Some (cancelled_record (ascii ''A'')))"
    by (simp add: example_batch_envs_def fetch_cancelled_page)
  have f1: "fetch_order_complete (example_batch_envs 1) (?ids ! 1) True False = Inr None"
    by (simp add: example_batch_envs_def fetch_timeout_page)
  have f2: "fetch_order_complete (example_batch_envs 2) (?ids ! 2) True False
      = Inr (Some (cancelled_record (ascii ''C'')))"
    by (simp add: example_batch_envs_def fetch_cancelled_page)
  have len: "length (process_orders_batch example_batch_envs ?ids True False) = 3"
    using t[THEN conjunct1] by simp
  note q = t[THEN conjunct2, THEN conjunct1, rule_format]
  have i0: "0 < length ?ids" and i1: "1 < length ?ids" and i2: "2 < length ?ids"
    by simp_all
  note ok0 = q[OF i0, unfolded Let_def, THEN conjunct2, THEN conjunct2, THEN conjunct2,
                THEN conjunct1, rule_format, THEN conjunct1]
  note ko1 = q[OF i1, unfolded Let_def, THEN conjunct2, THEN conjunct2, THEN conjunct1,
                rule_format]
  note ok2 = q[OF i2, unfolded Let_def, THEN conjunct2, THEN conjunct2, THEN conjunct2,
                THEN conjunct1, rule_format, THEN conjunct1]
  have e0: "process_orders_batch example_batch_envs ?ids True False ! 0
      = cancelled_record (ascii ''A'')"
    by (rule ok0) (simp only: sem f0 simp_thms)
  have e1: "process_orders_batch example_batch_envs ?ids True False ! 1
      = failure_entry (ascii ''B'') fetch_failed_text"
    using ko1[OF conjI[OF sem[of 1] f1]] by simp
  have e2: "process_orders_batch example_batch_envs ?ids True False ! 2
      = cancelled_record (ascii ''C'')"
    by (rule ok2) (simp only: sem f2 simp_thms)
  have fe: "failure_entry (ascii ''B'') fetch_failed_text ''order_id''
        = Some (PStr (ascii ''B''))"
      "failure_entry (ascii ''B'') fetch_failed_text ''error'' = Some (PStr fetch_failed_text)"
    using t[THEN conjunct2, THEN conjunct2] by blast+
  have "cancelled_record (ascii ''A'') ''error'' = None"
    by (simp add: cancelled_record_def)
  with len e0 e1 e2 fe show ?thesis by simp
qed

lemma chunk_length: "length (chunk s k xs) = min s (length xs - k * s)"
  by (simp add: chunk_def min.commute)

lemma chunk_index:
  assumes "j < length (chunk s k xs)"
  shows "j < s" and "k * s + j < length xs"
proof -
  from assms have "j < min s (length xs - k * s)" by (simp only: chunk_length)
  then show "j < s" and "k * s + j < length xs" by linarith+
qed

lemma concat_blocks:
  assumes len: "\<And>k. length (f k) = length (chunk s k xs)"
  shows "length (concat (map f [0..<m])) = min (m * s) (length xs) \<and>
         (\<forall>k<m. \<forall>j<length (chunk s k xs). concat (map f [0..<m]) ! (k * s + j) = f k ! j)"
proof (induction m)
  case 0
  show ?case by simp
next
  case (Suc m)
  let ?pre = "concat (map f [0..<m])"
  from Suc have l: "length ?pre = min (m * s) (length xs)"
    and ih: "\<And>k j. k < m \<Longrightarrow> j < length (chunk s k xs) \<Longrightarrow> ?pre ! (k * s + j) = f k ! j"
    by blast+
  have c: "concat (map f [0..<Suc m]) = ?pre @ f m" by simp
  have "length (?pre @ f m) = min (Suc m * s) (length xs)"
    by (simp add: l len chunk_length)
  moreover have "(?pre @ f m) ! (k * s + j) = f k ! j"
    if k: "k < Suc m" and j: "j < length (chunk s k xs)" for k j
  proof (cases "k < m")
    case True
    have "j < s" and "k * s + j < length xs" using j by (rule chunk_index)+
    moreover have "k * s + s \<le> m * s"
      using True by (metis Suc_leI mult_Suc mult_le_mono1 add.commute)
    ultimately have "k * s + j < length ?pre" by (simp add: l)
    then show ?thesis by (simp add: nth_append ih[OF True j])
  next
    case False
    then have km: "k = m" using k by simp
    have "m * s < length xs" using chunk_index(2)[OF j] by (simp add: km)
    then have "length ?pre = m * s" by (simp add: l)
    then show ?thesis by (simp add: km nth_append)
  qed
  ultimately show ?case unfolding c by blast
qed

lemma entry_of_cached:
  assumes "semaphore_enter env = Inr u" and "lock_enter env = Inr v"
    and "get_order_by_id env = Inr (Some row)" and "spec_amount_valid (stored_amount row)"
  shows "entry_of env order_id use_pool False = cached_result row"
  using assms
  by (simp add: entry_of_def fetch_order_complete_def fetch_order_complete_try_def
        amount_valid_spec stored_amount_def)

text \<open>
  Claim C9. \<open>process_orders_in_batches\<close> has no parameter for a forced refresh and calls
  the batch runner without one, so every session it starts runs with \<open>force_refresh\<close>
  false. For every position of the input list: when the session of that position (session
  \<open>p mod batch_size\<close> of batch \<open>p div batch_size\<close>) is entered and finds a stored record with
  a valid amount, the entry returned at that position is the reshaped stored record, with
  \<open>from_cache\<close> true; no argument of the chunked runner makes it a live fetch.
\<close>

theorem chunked_fetch_serves_cache:
  assumes "0 < batch_size" and "p < length order_ids"
    and "semaphore_enter (envs (p div nat batch_size) (p mod nat batch_size)) = Inr u"
    and "lock_enter (envs (p div nat batch_size) (p mod nat batch_size)) = Inr v"
    and "get_order_by_id (envs (p div nat batch_size) (p mod nat batch_size)) = Inr (Some row)"
    and "spec_amount_valid (stored_amount row)"
  shows "\<exists>results trace.
           process_orders_in_batches envs order_ids batch_size use_pool batch_delay
             = Inr (results, trace) \<and>
           length results = length order_ids \<and>
           results ! p = cached_result row \<and>
           (results ! p) ''from_cache'' = Some (PBool True)"
proof -
  define s where "s = nat batch_size"
  define nb where "nb = num_chunks (length order_ids) s"
  define k where "k = p div s"
  define j where "j = p mod s"
  define f where "f = (\<lambda>k. process_orders_batch (envs k) (chunk s k order_ids) use_pool False)"
  have s: "0 < s" using assms(1) by (simp add: s_def)
  have run: "process_orders_in_batches envs order_ids batch_size use_pool batch_delay
      = Inr (concat (map f [0..<nb]),
             concat (map (chunk_events s batch_delay order_ids nb) [0..<nb]))"
    unfolding f_def nb_def s_def by (rule process_orders_in_batches_eq[OF assms(1)])
  have p: "k * s + j = p" by (simp add: k_def j_def)
  have len: "length (f k') = length (chunk s k' order_ids)" for k'
    by (simp add: f_def process_orders_batch_length)
  note blocks = concat_blocks[of f s order_ids nb, OF len]
  have cover: "length order_ids \<le> nb * s"
    unfolding nb_def using s by (rule num_chunks_bounds(1))
  have k: "k < nb"
  proof (rule ccontr)
    assume "\<not> k < nb"
    then have "nb \<le> k" by simp
    then have "nb * s \<le> k * s" by (rule mult_le_mono1)
    moreover have "k * s \<le> p" using p by linarith
    ultimately show False using cover assms(2) by linarith
  qed
  have "j < s" using s by (simp add: j_def)
  then have j: "j < length (chunk s k order_ids)"
    using assms(2) p by (simp add: chunk_length)
  have "concat (map f [0..<nb]) ! p = f k ! j"
    using blocks k j p by blast
  also have "\<dots> = entry_of (envs k j) (chunk s k order_ids ! j) use_pool False"
    unfolding f_def using j by (rule process_orders_batch_nth)
  also have "\<dots> = cached_result row"
    using assms(3-6) unfolding k_def j_def s_def by (rule entry_of_cached)
  finally have e: "concat (map f [0..<nb]) ! p = cached_result row" .
  have l: "length (concat (map f [0..<nb])) = length order_ids"
    using blocks cover by simp
  show ?thesis
    using run e l by (simp add: cached_result_from_cache)
qed

text \<open>
  Three orders in chunks of two, all with a valid stored record: the third entry, the only
  one of the second batch, is served from the store.
\<close>

theorem chunked_fetch_serves_cache_witness:
  "\<exists>results trace.
     process_orders_in_batches (\<lambda>b i. env_with_row priced_row)
        [ascii ''A1'', ascii ''A2'', ascii ''A3''] 2 True (2::nat) = Inr (results, trace) \<and>
     length results = 3 \<and>
     results ! 2 = cached_result priced_row \<and>
     (results ! 2) ''from_cache'' = Some (PBool True)"
proof -
  have h: "(0::int) < 2" by simp
  have p: "2 < length [ascii ''A1'', ascii ''A2'', ascii ''A3'']" by simp
  have a: "semaphore_enter (env_with_row priced_row) = Inr ()"
    and b: "lock_enter (env_with_row priced_row) = Inr ()"
    and c: "get_order_by_id (env_with_row priced_row) = Inr (Some priced_row)"
    by (simp_all add: env_with_row_def)
  from chunked_fetch_serves_cache[where envs = "\<lambda>b i. env_with_row priced_row"
        and use_pool = True and batch_delay = "2::nat", OF h p a b c priced_row_valid]
  show ?thesis by (simp add: numeral_3_eq_3)
qed

end
